theory Spec2Isabelle
  imports Complex_Main "HOL-Library.Sublist" "HOL-Library.Multiset"
    "HOL-Library.Char_ord" "HOL-Library.List_Lexorder"
begin

section \<open>Domain compositions of biosynthetic gene clusters\<close>

text \<open>
  A model of \<^verbatim>\<open>4.umap/extract_compositions.py\<close>. The script reads GenBank records
  of two families (antiSMASH regions and GECCO clusters), keeps the records named in a
  table of family representatives, annotates their genes with protein domains, drops
  the domains above a p-value threshold, regroups the genes by source record, sorts the
  clusters by family and writes three files.

  Strings are \<^typ>\<open>string\<close>; Python compares them lexicographically by code point, which
  is the order of \<^theory_text>\<open>List_Lexorder\<close> over \<^theory_text>\<open>Char_ord\<close>. Exceptions are values
  of the type \<open>error\<close>, and a function that may raise returns \<open>error + 'a\<close>.
\<close>

subsection \<open>Identifier canonicalisation\<close>

text \<open>
  \<^verbatim>\<open>s.startswith(p)\<close> and \<^verbatim>\<open>s.rsplit(sep, 1)\<close> for a separator of one character:
  the string is cut at the last occurrence of the separator, and is returned whole in a
  list of one element when the separator does not occur.
\<close>

definition startswith :: "string \<Rightarrow> string \<Rightarrow> bool" where
  "startswith s p = (take (length p) s = p)"

definition rsplit1 :: "char \<Rightarrow> string \<Rightarrow> string list" where
  "rsplit1 sep s =
     (if sep \<in> set s
      then [rev (tl (dropWhile (\<lambda>c. c \<noteq> sep) (rev s))), rev (takeWhile (\<lambda>c. c \<noteq> sep) (rev s))]
      else [s])"

text \<open>
  Lines 129 and 191:
  \<^verbatim>\<open>id_ = name.rsplit(".", 1)[0] if name.startswith("BGC") else name\<close>.
\<close>

definition canonical :: "string \<Rightarrow> string" where
  "canonical name =
     (if startswith name ''BGC''
      then (case rsplit1 (CHR ''.'') name of p # _ \<Rightarrow> p | [] \<Rightarrow> name)
      else name)"

subsection \<open>Data model\<close>

text \<open>
  Python floats: a finite value, the two infinities, or not-a-number. Comparison is exact
  on floats, and every comparison with not-a-number is false. The double written
  \<^verbatim>\<open>1e-5\<close> is the double nearest to \<open>1/100000\<close>; no double lies between the two, so
  a double is below one exactly when it is below the other.
\<close>

datatype pyfloat = Finite real | PosInf | NegInf | NaN

fun float_lt :: "pyfloat \<Rightarrow> pyfloat \<Rightarrow> bool" where
  "float_lt (Finite x) (Finite y) = (x < y)"
| "float_lt (Finite x) PosInf = True"
| "float_lt NegInf (Finite y) = True"
| "float_lt NegInf PosInf = True"
| "float_lt _ _ = False"

fun float_ge :: "pyfloat \<Rightarrow> pyfloat \<Rightarrow> bool" where
  "float_ge NaN y = False"
| "float_ge x NaN = False"
| "float_ge PosInf y = True"
| "float_ge x NegInf = True"
| "float_ge (Finite x) (Finite y) = (y \<le> x)"
| "float_ge x y = False"

definition threshold :: pyfloat where
  "threshold = Finite (1 / 100000)"

text \<open>
  The entities of \<^verbatim>\<open>gecco.model\<close> and the GenBank records of \<^verbatim>\<open>gb_io\<close>, with the
  fields the script reads and writes. A feature carries its qualifiers as key/value pairs
  in file order; a gene refers back to the record it was read from.
\<close>

record domain =
  domain_name :: string
  pvalue :: pyfloat

record protein =
  protein_id :: string
  seq :: string
  domains :: "domain list"

record feature =
  feature_type :: string
  qualifiers :: "(string \<times> string) list"
  location_start :: int
  location_end :: int

record gb_record =
  record_name :: string
  features :: "feature list"

datatype strand = Coding | Reverse

record gene =
  source :: gb_record
  start :: int
  end_pos :: int
  protein :: protein
  strand :: strand

record cluster =
  cluster_id :: string
  genes :: "gene list"

datatype error = SystemExit feature | KeyError string | IndexError


definition with_domains :: "protein \<Rightarrow> domain list \<Rightarrow> protein" where
  "with_domains p ds = p\<lparr>domains := ds\<rparr>"

definition with_protein :: "gene \<Rightarrow> protein \<Rightarrow> gene" where
  "with_protein g p = g\<lparr>protein := p\<rparr>"

subsection \<open>Record normalisation\<close>

text \<open>
  \<^verbatim>\<open>cds.qualifiers.to_dict()\<close> of \<^verbatim>\<open>gb_io\<close> maps each key to the list of its values,
  in order. \<^verbatim>\<open>d[k][0]\<close> raises \<^verbatim>\<open>KeyError\<close> on a missing key and \<^verbatim>\<open>IndexError\<close> on an empty list.
\<close>

definition to_dict :: "(string \<times> string) list \<Rightarrow> (string \<rightharpoonup> string list)" where
  "to_dict qs k =
     (case map snd (filter (\<lambda>q. fst q = k) qs) of [] \<Rightarrow> None | v # vs \<Rightarrow> Some (v # vs))"

definition first_value :: "(string \<rightharpoonup> string list) \<Rightarrow> string \<Rightarrow> error + string" where
  "first_value d k =
     (case d k of None \<Rightarrow> Inl (KeyError k)
      | Some [] \<Rightarrow> Inl IndexError
      | Some (v # vs) \<Rightarrow> Inr v)"

text \<open>
  The body of the loop of \<^verbatim>\<open>region_to_cluster\<close> (lines 108 to 120): the identifier
  chain, with \<^verbatim>\<open>progress.print(cds); exit(1)\<close> when no qualifier gives one, then the
  translation.
\<close>

definition region_gene :: "gb_record \<Rightarrow> feature \<Rightarrow> error + gene" where
  "region_gene record cds =
     (let qs = to_dict (qualifiers cds) in
      case (if ''locus_tag'' \<in> dom qs then first_value qs ''locus_tag''
            else if ''protein_id'' \<in> dom qs then first_value qs ''protein_id''
            else if ''gene'' \<in> dom qs then first_value qs ''gene''
            else Inl (SystemExit cds)) of
        Inl e \<Rightarrow> Inl e
      | Inr id_cds \<Rightarrow>
          (case first_value qs ''translation'' of
             Inl e \<Rightarrow> Inl e
           | Inr translation \<Rightarrow>
               Inr \<lparr>source = record, start = location_start cds, end_pos = location_end cds,
                    protein = \<lparr>protein_id = id_cds, seq = translation, domains = []\<rparr>,
                    strand = Coding\<rparr>))"

text \<open>The body of the loop of \<^verbatim>\<open>record_to_cluster\<close> (lines 138 to 141).\<close>

definition record_gene :: "gb_record \<Rightarrow> feature \<Rightarrow> error + gene" where
  "record_gene record cds =
     (let qs = to_dict (qualifiers cds) in
      case first_value qs ''translation'' of
        Inl e \<Rightarrow> Inl e
      | Inr translation \<Rightarrow>
          Inr \<lparr>source = record, start = location_start cds, end_pos = location_end cds,
               protein = \<lparr>protein_id = record_name record, seq = translation, domains = []\<rparr>,
               strand = Coding\<rparr>)"

text \<open>
  The loop over the coding features, appending to \<^verbatim>\<open>genes\<close>; the first exception ends it.
\<close>

fun collect_genes :: "(feature \<Rightarrow> error + gene) \<Rightarrow> feature list \<Rightarrow> gene list \<Rightarrow> error + gene list" where
  "collect_genes f [] acc = Inr acc"
| "collect_genes f (cds # rest) acc =
     (case f cds of Inl e \<Rightarrow> Inl e | Inr g \<Rightarrow> collect_genes f rest (acc @ [g]))"

definition cds_features :: "gb_record \<Rightarrow> feature list" where
  "cds_features record = filter (\<lambda>f. feature_type f = ''CDS'') (features record)"

definition region_to_cluster :: "gb_record \<Rightarrow> string \<Rightarrow> error + cluster" where
  "region_to_cluster record bgc_id =
     (case collect_genes (region_gene record) (cds_features record) [] of
        Inl e \<Rightarrow> Inl e
      | Inr gs \<Rightarrow> Inr \<lparr>cluster_id = bgc_id, genes = gs\<rparr>)"

definition record_to_cluster :: "gb_record \<Rightarrow> error + cluster" where
  "record_to_cluster record =
     (case collect_genes (record_gene record) (cds_features record) [] of
        Inl e \<Rightarrow> Inl e
      | Inr gs \<Rightarrow> Inr \<lparr>cluster_id = record_name record, genes = gs\<rparr>)"

subsection \<open>Ingestion\<close>

text \<open>
  The table of representatives (line 99) is a list of rows
  \<open>(gcf_representative, gcf_id)\<close>. Line 100 takes the set of the first column, line 101
  builds a dictionary in which a later row replaces an earlier one with the same key.
\<close>

definition representative_ids :: "(string \<times> string) list \<Rightarrow> string set" where
  "representative_ids gcfs = set (map fst gcfs)"

definition bgc_to_gcf_index :: "(string \<times> string) list \<Rightarrow> (string \<rightharpoonup> string)" where
  "bgc_to_gcf_index gcfs = fold (\<lambda>row m. m(fst row \<mapsto> snd row)) gcfs Map.empty"

text \<open>
  Lines 124 to 131: every record of every antiSMASH file, in order; a record is kept
  when its canonical name is a representative. Each file is the list of its records.
\<close>

fun antismash_records :: "string set \<Rightarrow> gb_record list \<Rightarrow> cluster list \<Rightarrow> error + cluster list" where
  "antismash_records reps [] acc = Inr acc"
| "antismash_records reps (record # rest) acc =
     (let id_rec = canonical (record_name record) in
      if id_rec \<in> reps
      then (case region_to_cluster record id_rec of
              Inl e \<Rightarrow> Inl e
            | Inr c \<Rightarrow> antismash_records reps rest (acc @ [c]))
      else antismash_records reps rest acc)"

fun antismash_files :: "string set \<Rightarrow> gb_record list list \<Rightarrow> cluster list \<Rightarrow> error + cluster list" where
  "antismash_files reps [] acc = Inr acc"
| "antismash_files reps (file # rest) acc =
     (case antismash_records reps file acc of
        Inl e \<Rightarrow> Inl e
      | Inr acc' \<Rightarrow> antismash_files reps rest acc')"

text \<open>Lines 145 to 152: the GECCO files; a record is kept when its name is a representative.\<close>

fun gecco_records :: "string set \<Rightarrow> gb_record list \<Rightarrow> cluster list \<Rightarrow> error + cluster list" where
  "gecco_records reps [] acc = Inr acc"
| "gecco_records reps (record # rest) acc =
     (if record_name record \<in> reps
      then (case record_to_cluster record of
              Inl e \<Rightarrow> Inl e
            | Inr c \<Rightarrow> gecco_records reps rest (acc @ [c]))
      else gecco_records reps rest acc)"

fun gecco_files :: "string set \<Rightarrow> gb_record list list \<Rightarrow> cluster list \<Rightarrow> error + cluster list" where
  "gecco_files reps [] acc = Inr acc"
| "gecco_files reps (file # rest) acc =
     (case gecco_records reps file acc of
        Inl e \<Rightarrow> Inl e
      | Inr acc' \<Rightarrow> gecco_files reps rest acc')"

text \<open>
  The first block of the script: the antiSMASH files, then the GECCO files; line 168
  puts the GECCO clusters first.
\<close>

definition merged_clusters ::
    "string set \<Rightarrow> gb_record list list \<Rightarrow> gb_record list list \<Rightarrow> error + cluster list" where
  "merged_clusters reps as_files ge_files =
     (case antismash_files reps as_files [] of
        Inl e \<Rightarrow> Inl e
      | Inr antismash_clusters \<Rightarrow>
          (case gecco_files reps ge_files [] of
             Inl e \<Rightarrow> Inl e
           | Inr gecco_clusters \<Rightarrow> Inr (gecco_clusters @ antismash_clusters)))"

subsection \<open>Annotation and significance filter\<close>

text \<open>Line 173: the genes of all clusters, in order.\<close>

definition flatten :: "cluster list \<Rightarrow> gene list" where
  "flatten clusters = concat (map genes clusters)"

text \<open>
  Lines 174 to 177 run the domain search of \<^verbatim>\<open>gecco.hmmer\<close> once per library, in the
  order of \<^verbatim>\<open>HMMS\<close> (line 82). The search is library code: it is a parameter \<open>hits\<close>
  giving, for a library and the whole gene list, the domains found for the gene at each
  position; the run appends them to the domains of that gene's protein.
\<close>

datatype hmm = SmCOGs | NRPsPKs | HMMdetect | Pfam | Tigrfam

definition HMMS :: "hmm list" where
  "HMMS = [SmCOGs, NRPsPKs, HMMdetect, Pfam, Tigrfam]"

definition add_domains :: "gene \<Rightarrow> domain list \<Rightarrow> gene" where
  "add_domains g ds = with_protein g (with_domains (protein g) (domains (protein g) @ ds))"

definition hmmer_run :: "(hmm \<Rightarrow> gene list \<Rightarrow> nat \<Rightarrow> domain list) \<Rightarrow> hmm \<Rightarrow> gene list \<Rightarrow> gene list" where
  "hmmer_run hits h gs = map (\<lambda>(i, g). add_domains g (hits h gs i)) (enumerate 0 gs)"

definition annotate :: "(hmm \<Rightarrow> gene list \<Rightarrow> nat \<Rightarrow> domain list) \<Rightarrow> gene list \<Rightarrow> gene list" where
  "annotate hits gs = fold (hmmer_run hits) HMMS gs"

text \<open>Lines 180 to 183: keep the domains with a p-value below the threshold.\<close>

definition significant :: "domain \<Rightarrow> bool" where
  "significant d = float_lt (pvalue d) threshold"

definition filter_gene :: "gene \<Rightarrow> gene" where
  "filter_gene g = with_protein g (with_domains (protein g) (filter significant (domains (protein g))))"

definition filter_genes :: "gene list \<Rightarrow> gene list" where
  "filter_genes gs = map filter_gene gs"

subsection \<open>Regrouping\<close>

text \<open>
  Line 186 sorts the genes by the name of their source record; Python's sort is stable,
  as \<^const>\<open>sort_key\<close> is. \<^verbatim>\<open>itertools.groupby\<close> cuts a list into the maximal runs
  of consecutive elements with equal keys.
\<close>

definition source_name :: "gene \<Rightarrow> string" where
  "source_name g = record_name (source g)"

definition sort_genes :: "gene list \<Rightarrow> gene list" where
  "sort_genes gs = sort_key source_name gs"

function groupby :: "('a \<Rightarrow> 'k) \<Rightarrow> 'a list \<Rightarrow> ('k \<times> 'a list) list" where
  "groupby key [] = []"
| "groupby key (x # xs) =
     (key x, x # takeWhile (\<lambda>y. key y = key x) xs)
       # groupby key (dropWhile (\<lambda>y. key y = key x) xs)"
  by pat_completeness auto
termination
  by (relation "measure (\<lambda>(key, xs). length xs)")
     (auto simp: length_dropWhile_le le_imp_less_Suc)

text \<open>Lines 189 to 193: one cluster per run, named by the canonical form of the run's key.\<close>

definition regroup :: "gene list \<Rightarrow> cluster list" where
  "regroup gs =
     map (\<lambda>(bgc_id, cluster_genes). \<lparr>cluster_id = canonical bgc_id, genes = cluster_genes\<rparr>)
       (groupby source_name gs)"

subsection \<open>Row order, vocabulary and output\<close>

text \<open>
  Line 199: \<^verbatim>\<open>list.sort\<close> first computes the key of every element, in order, so the
  first cluster without a label raises \<^verbatim>\<open>KeyError\<close>; then it sorts stably by the keys.
\<close>

fun sort_keys :: "(string \<rightharpoonup> string) \<Rightarrow> cluster list \<Rightarrow> error + string list" where
  "sort_keys tbl [] = Inr []"
| "sort_keys tbl (c # cs) =
     (case tbl (cluster_id c) of
        None \<Rightarrow> Inl (KeyError (cluster_id c))
      | Some k \<Rightarrow> (case sort_keys tbl cs of Inl e \<Rightarrow> Inl e | Inr ks \<Rightarrow> Inr (k # ks)))"

definition sort_by_gcf :: "(string \<rightharpoonup> string) \<Rightarrow> cluster list \<Rightarrow> error + cluster list" where
  "sort_by_gcf tbl cs =
     (case sort_keys tbl cs of
        Inl e \<Rightarrow> Inl e
      | Inr ks \<Rightarrow> Inr (map snd (sort_key fst (zip ks cs))))"

text \<open>Line 202: the sorted set of the domain names of all clusters.\<close>

definition all_possible :: "cluster list \<Rightarrow> string list" where
  "all_possible cs =
     sort (remdups (concat (map (\<lambda>c. concat (map (\<lambda>g. map domain_name (domains (protein g))) (genes c))) cs)))"

text \<open>
  Lines 206 to 216: the two text files, as the text written to them. The label of a
  cluster is looked up again at line 210; were it missing, the identifier and the
  tabulator would already be in the file.
\<close>

definition TAB :: char where
  "TAB = CHR 0x09"

definition NL :: char where
  "NL = CHR 0x0A"

fun write_labels :: "(string \<rightharpoonup> string) \<Rightarrow> cluster list \<Rightarrow> string \<Rightarrow> string \<times> error option" where
  "write_labels tbl [] f = (f, None)"
| "write_labels tbl (c # cs) f =
     (case tbl (cluster_id c) of
        None \<Rightarrow> (f @ cluster_id c @ [TAB], Some (KeyError (cluster_id c)))
      | Some gcf \<Rightarrow> write_labels tbl cs (f @ cluster_id c @ [TAB] @ gcf @ [NL]))"

fun write_domains :: "string list \<Rightarrow> string \<Rightarrow> string" where
  "write_domains [] f = f"
| "write_domains (d # ds) f = write_domains ds (f @ d @ [NL])"

text \<open>
  The effects of the last block in program order: the directory (line 204), the two
  text files, the matrix in memory (line 218) and the matrix file (line 219). The
  composition of a cluster over the vocabulary is \<^verbatim>\<open>Cluster.domain_composition\<close> of
  \<^verbatim>\<open>gecco.model\<close>, a parameter \<open>dc\<close> here; it gives one vector over the
  vocabulary for each cluster.

  Line 219 saves \<^verbatim>\<open>scipy.sparse.coo_matrix(comp)\<close>. Of \<open>n \<ge> 1\<close> vectors,
  \<^verbatim>\<open>numpy.array\<close> makes a two-dimensional array of \<open>n\<close> rows, and the saved matrix has
  these rows. Of no vector it makes a one-dimensional array of length 0, which
  \<^verbatim>\<open>coo_matrix\<close> reads as one row without columns.
\<close>

datatype 'row matrix = Rows "'row list" | One_by_zero

definition coo_matrix :: "'row list \<Rightarrow> 'row matrix" where
  "coo_matrix rows = (if rows = [] then One_by_zero else Rows rows)"


datatype 'row event =
    MakeDirs
  | WriteFile string string
  | BuildComp "'row list"
  | SaveNpz string "'row matrix"

record 'row result =
  all_clusters :: "cluster list"
  vocabulary :: "string list"
  labels_tsv :: string
  domains_tsv :: string
  comp_matrix :: "'row list"
  missing :: nat

definition finalize ::
    "(string \<rightharpoonup> string) \<Rightarrow> (string list \<Rightarrow> cluster \<Rightarrow> 'row) \<Rightarrow> string set \<Rightarrow> cluster list
      \<Rightarrow> 'row event list \<times> (error + 'row result)" where
  "finalize tbl dc reps regrouped =
     (case sort_by_gcf tbl regrouped of
        Inl e \<Rightarrow> ([], Inl e)
      | Inr cs \<Rightarrow>
          (let vocab = all_possible cs in
           case write_labels tbl cs [] of
             (labels, Some e) \<Rightarrow> ([MakeDirs, WriteFile ''labels.tsv'' labels], Inl e)
           | (labels, None) \<Rightarrow>
               (let doms = write_domains vocab [];
                    rows = map (dc vocab) cs
                in ([MakeDirs, WriteFile ''labels.tsv'' labels, WriteFile ''domains.tsv'' doms,
                     BuildComp rows, SaveNpz ''compositions.npz'' (coo_matrix rows)],
                    Inr \<lparr>all_clusters = cs, vocabulary = vocab, labels_tsv = labels,
                         domains_tsv = doms, comp_matrix = rows,
                         missing = card (reps - set (map cluster_id cs))\<rparr>))))"

text \<open>The second block of the script, from the merged clusters.\<close>

definition second_phase ::
    "(hmm \<Rightarrow> gene list \<Rightarrow> nat \<Rightarrow> domain list) \<Rightarrow> (string list \<Rightarrow> cluster \<Rightarrow> 'row)
      \<Rightarrow> (string \<times> string) list \<Rightarrow> cluster list \<Rightarrow> 'row event list \<times> (error + 'row result)" where
  "second_phase hits dc gcfs clusters =
     finalize (bgc_to_gcf_index gcfs) dc (representative_ids gcfs)
       (regroup (sort_genes (filter_genes (annotate hits (flatten clusters)))))"

definition main ::
    "(hmm \<Rightarrow> gene list \<Rightarrow> nat \<Rightarrow> domain list) \<Rightarrow> (string list \<Rightarrow> cluster \<Rightarrow> 'row)
      \<Rightarrow> (string \<times> string) list \<Rightarrow> gb_record list list \<Rightarrow> gb_record list list
      \<Rightarrow> 'row event list \<times> (error + 'row result)" where
  "main hits dc gcfs as_files ge_files =
     (case merged_clusters (representative_ids gcfs) as_files ge_files of
        Inl e \<Rightarrow> ([], Inl e)
      | Inr clusters \<Rightarrow> second_phase hits dc gcfs clusters)"

subsection \<open>Example inputs\<close>

text \<open>
  Coding features with identifiers and a translation, with a translation only, and with
  a gene name only; a feature that is not a coding sequence.
\<close>

definition cds_tagged :: feature where
  "cds_tagged = \<lparr>feature_type = ''CDS'',
     qualifiers = [(''locus_tag'', ''tagA''), (''protein_id'', ''protA''), (''translation'', ''MKV'')],
     location_start = 0, location_end = 9\<rparr>"

definition cds_anonymous :: feature where
  "cds_anonymous = \<lparr>feature_type = ''CDS'', qualifiers = [(''translation'', ''MST'')],
     location_start = 12, location_end = 21\<rparr>"

definition cds_untranslated :: feature where
  "cds_untranslated = \<lparr>feature_type = ''CDS'', qualifiers = [(''gene'', ''abcB'')],
     location_start = 30, location_end = 39\<rparr>"

definition region_feature :: feature where
  "region_feature = \<lparr>feature_type = ''region'', qualifiers = [],
     location_start = 0, location_end = 100\<rparr>"

text \<open>
  An antiSMASH record of MIBiG, a GECCO record, a GECCO record whose name starts with
  \<^verbatim>\<open>BGC\<close>, and records with a feature that cannot be normalised.
\<close>

definition mibig_record :: gb_record where
  "mibig_record = \<lparr>record_name = ''BGC0000001.1'', features = [region_feature, cds_tagged]\<rparr>"

definition gecco_record :: gb_record where
  "gecco_record = \<lparr>record_name = ''NZ_1_cluster_1'', features = [cds_tagged, cds_anonymous]\<rparr>"

definition gecco_bgc_record :: gb_record where
  "gecco_bgc_record = \<lparr>record_name = ''BGC0000002.1'', features = [cds_tagged]\<rparr>"

definition anonymous_record :: gb_record where
  "anonymous_record = \<lparr>record_name = ''BGC0000003.1'', features = [cds_tagged, cds_anonymous]\<rparr>"

definition untranslated_record :: gb_record where
  "untranslated_record = \<lparr>record_name = ''NZ_2_cluster_1'', features = [cds_untranslated]\<rparr>"

definition example_gcfs :: "(string \<times> string) list" where
  "example_gcfs = [(''BGC0000001'', ''GCF2''), (''NZ_1_cluster_1'', ''GCF1'')]"

definition tagged_gene :: "gb_record \<Rightarrow> string \<Rightarrow> gene" where
  "tagged_gene r i = \<lparr>source = r, start = 0, end_pos = 9,
     protein = \<lparr>protein_id = i, seq = ''MKV'', domains = []\<rparr>, strand = Coding\<rparr>"

definition anonymous_gene :: "gb_record \<Rightarrow> string \<Rightarrow> gene" where
  "anonymous_gene r i = \<lparr>source = r, start = 12, end_pos = 21,
     protein = \<lparr>protein_id = i, seq = ''MST'', domains = []\<rparr>, strand = Coding\<rparr>"

definition example_merged :: "cluster list" where
  "example_merged =
     [\<lparr>cluster_id = ''NZ_1_cluster_1'',
        genes = [tagged_gene gecco_record ''NZ_1_cluster_1'', anonymous_gene gecco_record ''NZ_1_cluster_1'']\<rparr>,
      \<lparr>cluster_id = ''BGC0000001'', genes = [tagged_gene mibig_record ''tagA'']\<rparr>]"

text \<open>
  A table that lists the record without a translation; a search that finds domains for
  the three genes of the example in the Pfam and Tigrfam libraries only; and a
  composition that counts the occurrences of each name of the vocabulary.
\<close>

definition untranslated_gcfs :: "(string \<times> string) list" where
  "untranslated_gcfs = [(''NZ_2_cluster_1'', ''GCF3'')]"

definition PF1_weak :: domain where
  "PF1_weak = \<lparr>domain_name = ''PF00001'', pvalue = Finite (1 / 10000)\<rparr>"

definition PF1_strong :: domain where
  "PF1_strong = \<lparr>domain_name = ''PF00001'', pvalue = Finite (1 / 1000000)\<rparr>"

definition PF2_strong :: domain where
  "PF2_strong = \<lparr>domain_name = ''PF00002'', pvalue = Finite (1 / 10000000)\<rparr>"

definition TIGR_nan :: domain where
  "TIGR_nan = \<lparr>domain_name = ''TIGR00001'', pvalue = NaN\<rparr>"

definition example_hits :: "hmm \<Rightarrow> gene list \<Rightarrow> nat \<Rightarrow> domain list" where
  "example_hits h gs i =
     (if h = Pfam \<and> i = 0 then [PF2_strong]
      else if h = Pfam \<and> i = 2 then [PF1_weak, PF1_strong]
      else if h = Tigrfam \<and> i = 2 then [TIGR_nan]
      else [])"

definition domain_counts :: "string list \<Rightarrow> cluster \<Rightarrow> nat list" where
  "domain_counts vocab c =
     map (count_list (concat (map (\<lambda>g. map domain_name (domains (protein g))) (genes c)))) vocab"

text \<open>A gene with four domains, two of them significant.\<close>

definition annotated_gene :: gene where
  "annotated_gene =
     add_domains (tagged_gene mibig_record ''tagA'') [PF1_weak, PF2_strong, TIGR_nan, PF1_strong]"

text \<open>The record name a cluster of the example was read from, taken from its genes.\<close>

definition example_source :: "cluster \<Rightarrow> string" where
  "example_source c = (case genes c of g # rest \<Rightarrow> source_name g | [] \<Rightarrow> cluster_id c)"

subsection \<open>Reading the output\<close>


text \<open>Whether a file of the given name is written before the matrix is in memory.\<close>

fun written_before_comp :: "string \<Rightarrow> 'row event list \<Rightarrow> bool" where
  "written_before_comp n [] = False"
| "written_before_comp n (BuildComp rows # es) = False"
| "written_before_comp n (WriteFile f t # es) = (f = n \<or> written_before_comp n es)"
| "written_before_comp n (SaveNpz f rows # es) = (f = n \<or> written_before_comp n es)"
| "written_before_comp n (MakeDirs # es) = written_before_comp n es"

text \<open>
  The run on the example: the clusters in row order, and a table that lists a GECCO
  record under its raw name only.
\<close>

definition example_final :: "cluster list" where
  "example_final =
     [\<lparr>cluster_id = ''NZ_1_cluster_1'',
        genes = [add_domains (tagged_gene gecco_record ''NZ_1_cluster_1'') [PF2_strong],
                 anonymous_gene gecco_record ''NZ_1_cluster_1'']\<rparr>,
      \<lparr>cluster_id = ''BGC0000001'',
        genes = [add_domains (tagged_gene mibig_record ''tagA'') [PF1_strong]]\<rparr>]"

definition example_labels :: string where
  "example_labels = ''NZ_1_cluster_1'' @ [TAB] @ ''GCF1'' @ [NL] @ ''BGC0000001'' @ [TAB] @ ''GCF2'' @ [NL]"

definition example_domains :: string where
  "example_domains = ''PF00001'' @ [NL] @ ''PF00002'' @ [NL]"

definition example_comp :: "nat list list" where
  "example_comp = [[0, 1], [1, 0]]"

definition example_result :: "nat list result" where
  "example_result = \<lparr>all_clusters = example_final, vocabulary = [''PF00001'', ''PF00002''],
     labels_tsv = example_labels, domains_tsv = example_domains, comp_matrix = example_comp, missing = 0\<rparr>"

definition raw_name_gcfs :: "(string \<times> string) list" where
  "raw_name_gcfs = [(''BGC0000002.1'', ''GCF9'')]"

text \<open>The cluster regrouped from the GECCO record whose name starts with \<^verbatim>\<open>BGC\<close>.\<close>

definition raw_name_cluster :: cluster where
  "raw_name_cluster = \<lparr>cluster_id = ''BGC0000002'',
     genes = [add_domains (tagged_gene gecco_bgc_record ''BGC0000002.1'') [PF2_strong]]\<rparr>"






subsection \<open>The ingested grouping after annotation and filtering\<close>

text \<open>
  The search and the filter work on the flat gene list position by position, so the
  genes of the \<open>i\<close>-th ingested cluster, as annotated and filtered, are the \<open>i\<close>-th
  piece of the processed list, cut at the sizes of the clusters. A gene is recognised
  apart from its domain list, the only field the two steps change.
\<close>

fun pieces :: "nat list \<Rightarrow> 'a list \<Rightarrow> 'a list list" where
  "pieces [] xs = []"
| "pieces (n # ns) xs = take n xs # pieces ns (drop n xs)"

definition processed :: "(hmm \<Rightarrow> gene list \<Rightarrow> nat \<Rightarrow> domain list) \<Rightarrow> cluster list \<Rightarrow> gene list list" where
  "processed hits cs =
     pieces (map (\<lambda>c. length (genes c)) cs) (filter_genes (annotate hits (flatten cs)))"

definition without_domains :: "gene \<Rightarrow> gene" where
  "without_domains g = with_protein g (with_domains (protein g) [])"

text \<open>A record without coding features.\<close>

definition empty_record :: gb_record where
  "empty_record = \<lparr>record_name = ''NZ_3_cluster_1'', features = [region_feature]\<rparr>"


section \<open>Properties\<close>

subsection \<open>Canonicalisation\<close>

lemma rsplit1_absent: "sep \<notin> set s \<Longrightarrow> rsplit1 sep s = [s]"
  by (simp add: rsplit1_def)

lemma rsplit1_last: "sep \<notin> set q \<Longrightarrow> rsplit1 sep (p @ sep # q) = [p, q]"
proof -
  assume q: "sep \<notin> set q"
  have t: "takeWhile (\<lambda>c. c \<noteq> sep) (rev q @ sep # rev p) = rev q"
    using q by (subst takeWhile_append2) auto
  have d: "dropWhile (\<lambda>c. c \<noteq> sep) (rev q @ sep # rev p) = sep # rev p"
    using q by (subst dropWhile_append2) auto
  show ?thesis by (simp add: rsplit1_def t d)
qed

lemma canonical_other: "\<not> startswith x ''BGC'' \<Longrightarrow> canonical x = x"
  by (simp add: canonical_def)

lemma canonical_no_dot: "CHR ''.'' \<notin> set x \<Longrightarrow> canonical x = x"
  by (simp add: canonical_def rsplit1_absent)

lemma canonical_last_dot:
  "startswith (p @ CHR ''.'' # q) ''BGC'' \<Longrightarrow> CHR ''.'' \<notin> set q \<Longrightarrow> canonical (p @ CHR ''.'' # q) = p"
  by (simp add: canonical_def rsplit1_last)

text \<open>The prefix has no dot, so it lies before the last dot.\<close>

lemma startswith_BGC_prefix:
  assumes "startswith (p @ CHR ''.'' # q) ''BGC''"
  shows "startswith p ''BGC''"
proof (cases p)
  case Nil
  with assms show ?thesis by (simp add: startswith_def)
next
  case p: (Cons a p1)
  show ?thesis
  proof (cases p1)
    case Nil
    with assms p show ?thesis by (simp add: startswith_def)
  next
    case p1: (Cons b p2)
    show ?thesis
    proof (cases p2)
      case Nil
      with assms p p1 show ?thesis by (simp add: startswith_def)
    next
      case (Cons c p3)
      with assms p p1 show ?thesis by (simp add: startswith_def)
    qed
  qed
qed

text \<open>
  C1, as stated, fails: canonicalisation is not idempotent. A name that starts with
  \<^verbatim>\<open>BGC\<close> and has two dots loses one segment at each application.
\<close>

theorem canonical_not_idempotent:
  "canonical (canonical ''BGC0000001.1.region001'') \<noteq> canonical ''BGC0000001.1.region001''"
  by (simp add: canonical_def startswith_def rsplit1_def)

text \<open>
  C1, amended: applying the rule twice gives the same result as applying it once exactly
  for the identifiers that do not start with \<^verbatim>\<open>BGC\<close> or contain at most one dot.
\<close>

theorem canonical_idempotent_iff:
  "canonical (canonical x) = canonical x \<longleftrightarrow>
     (\<not> startswith x ''BGC'' \<or> count_list x (CHR ''.'') \<le> 1)"
proof (cases "startswith x ''BGC''")
  case False
  then show ?thesis by (simp add: canonical_other)
next
  case sw: True
  show ?thesis
  proof (cases "CHR ''.'' \<in> set x")
    case False
    then have "count_list x (CHR ''.'') = 0" by (simp add: count_list_0_iff)
    with False show ?thesis by (simp add: canonical_no_dot)
  next
    case True
    then obtain p q where x: "x = p @ CHR ''.'' # q" and q: "CHR ''.'' \<notin> set q"
      by (meson split_list_last)
    have cx: "canonical x = p" using sw q unfolding x by (rule canonical_last_dot)
    have swp: "startswith p ''BGC''" using sw unfolding x by (rule startswith_BGC_prefix)
    have cnt: "count_list x (CHR ''.'') = Suc (count_list p (CHR ''.''))"
      using q by (simp add: x count_list_0_iff)
    show ?thesis
    proof (cases "CHR ''.'' \<in> set p")
      case False
      then have "count_list p (CHR ''.'') = 0" by (simp add: count_list_0_iff)
      with False cx cnt show ?thesis by (simp add: canonical_no_dot)
    next
      case True
      then obtain p' q' where p: "p = p' @ CHR ''.'' # q'" and q': "CHR ''.'' \<notin> set q'"
        by (meson split_list_last)
      have "canonical p = p'" using swp q' unfolding p by (rule canonical_last_dot)
      then have "canonical p \<noteq> p" by (simp add: p)
      moreover have "count_list p (CHR ''.'') > 0" using True by (metis count_list_0_iff gr0I)
      ultimately show ?thesis using cx cnt sw by simp
    qed
  qed
qed

theorem canonical_idempotent_iff_witness:
  "canonical (canonical ''BGC0000001.1'') = canonical ''BGC0000001.1''
   \<and> startswith ''BGC0000001.1'' ''BGC'' \<and> count_list ''BGC0000001.1'' (CHR ''.'') \<le> 1"
  using canonical_idempotent_iff [of "''BGC0000001.1''"]
  by (simp add: startswith_def)

subsection \<open>Normalisation and ingestion\<close>

lemma to_dict_None: "to_dict qs k = None \<longleftrightarrow> map_of qs k = None"
  by (induction qs) (auto simp: to_dict_def split: list.splits)

lemma first_value_map_of:
  "first_value (to_dict qs) k = (case map_of qs k of None \<Rightarrow> Inl (KeyError k) | Some v \<Rightarrow> Inr v)"
  by (induction qs) (auto simp: first_value_def to_dict_def split: list.splits option.splits)

lemma dom_to_dict: "k \<in> dom (to_dict qs) \<longleftrightarrow> map_of qs k \<noteq> None"
  using to_dict_None [of qs k] by (auto simp: dom_def)

lemma collect_genes_Inr:
  "collect_genes f xs acc = Inr gs \<Longrightarrow>
     \<exists>gs'. gs = acc @ gs' \<and> list_all2 (\<lambda>x g. f x = Inr g) xs gs'"
proof (induction xs arbitrary: acc)
  case Nil
  then show ?case by simp
next
  case (Cons x xs)
  from Cons.prems obtain g where g: "f x = Inr g" and rest: "collect_genes f xs (acc @ [g]) = Inr gs"
    by (auto split: sum.splits)
  from Cons.IH [OF rest] obtain gs' where "gs = (acc @ [g]) @ gs'" "list_all2 (\<lambda>x g. f x = Inr g) xs gs'"
    by blast
  with g show ?case by (intro exI [of _ "g # gs'"]) simp
qed

lemma collect_genes_all:
  "list_all2 (\<lambda>x g. f x = Inr g) xs gs' \<Longrightarrow> collect_genes f xs acc = Inr (acc @ gs')"
  by (induction xs arbitrary: acc gs') (auto simp: list_all2_Cons1)

lemma collect_genes_Inl:
  "x \<in> set xs \<Longrightarrow> f x = Inl e \<Longrightarrow> \<exists>e'. collect_genes f xs acc = Inl e'"
  by (induction xs arbitrary: acc) (auto split: sum.splits)


lemma antismash_records_Inr:
  "antismash_records reps rs acc = Inr cs \<Longrightarrow>
     \<exists>cs'. cs = acc @ cs' \<and>
       list_all2 (\<lambda>r c. region_to_cluster r (canonical (record_name r)) = Inr c)
         (filter (\<lambda>r. canonical (record_name r) \<in> reps) rs) cs'"
proof (induction rs arbitrary: acc)
  case Nil
  then show ?case by simp
next
  case (Cons r rs)
  show ?case
  proof (cases "canonical (record_name r) \<in> reps")
    case False
    with Cons show ?thesis by simp
  next
    case True
    with Cons.prems obtain c where c: "region_to_cluster r (canonical (record_name r)) = Inr c"
      and rest: "antismash_records reps rs (acc @ [c]) = Inr cs"
      by (auto simp: Let_def split: sum.splits)
    from Cons.IH [OF rest] obtain cs' where "cs = (acc @ [c]) @ cs'"
      "list_all2 (\<lambda>r c. region_to_cluster r (canonical (record_name r)) = Inr c)
         (filter (\<lambda>r. canonical (record_name r) \<in> reps) rs) cs'"
      by blast
    with c True show ?thesis by (intro exI [of _ "c # cs'"]) simp
  qed
qed

lemma antismash_files_Inr:
  "antismash_files reps fs acc = Inr cs \<Longrightarrow>
     \<exists>cs'. cs = acc @ cs' \<and>
       list_all2 (\<lambda>r c. region_to_cluster r (canonical (record_name r)) = Inr c)
         (filter (\<lambda>r. canonical (record_name r) \<in> reps) (concat fs)) cs'"
proof (induction fs arbitrary: acc)
  case Nil
  then show ?case by simp
next
  case (Cons f fs)
  from Cons.prems obtain acc' where a: "antismash_records reps f acc = Inr acc'"
    and rest: "antismash_files reps fs acc' = Inr cs"
    by (auto split: sum.splits)
  from antismash_records_Inr [OF a] obtain c1 where c1: "acc' = acc @ c1"
    "list_all2 (\<lambda>r c. region_to_cluster r (canonical (record_name r)) = Inr c)
         (filter (\<lambda>r. canonical (record_name r) \<in> reps) f) c1" by blast
  from Cons.IH [OF rest] obtain c2 where c2: "cs = acc' @ c2"
    "list_all2 (\<lambda>r c. region_to_cluster r (canonical (record_name r)) = Inr c)
         (filter (\<lambda>r. canonical (record_name r) \<in> reps) (concat fs)) c2" by blast
  from c1 c2 show ?case
    by (intro exI [of _ "c1 @ c2"]) (simp add: list_all2_appendI)
qed


lemma gecco_records_Inr:
  "gecco_records reps rs acc = Inr cs \<Longrightarrow>
     \<exists>cs'. cs = acc @ cs' \<and>
       list_all2 (\<lambda>r c. record_to_cluster r = Inr c) (filter (\<lambda>r. record_name r \<in> reps) rs) cs'"
proof (induction rs arbitrary: acc)
  case Nil
  then show ?case by simp
next
  case (Cons r rs)
  show ?case
  proof (cases "record_name r \<in> reps")
    case False
    with Cons show ?thesis by simp
  next
    case True
    with Cons.prems obtain c where c: "record_to_cluster r = Inr c"
      and rest: "gecco_records reps rs (acc @ [c]) = Inr cs"
      by (auto split: sum.splits)
    from Cons.IH [OF rest] obtain cs' where "cs = (acc @ [c]) @ cs'"
      "list_all2 (\<lambda>r c. record_to_cluster r = Inr c) (filter (\<lambda>r. record_name r \<in> reps) rs) cs'"
      by blast
    with c True show ?thesis by (intro exI [of _ "c # cs'"]) simp
  qed
qed

lemma gecco_files_Inr:
  "gecco_files reps fs acc = Inr cs \<Longrightarrow>
     \<exists>cs'. cs = acc @ cs' \<and>
       list_all2 (\<lambda>r c. record_to_cluster r = Inr c)
         (filter (\<lambda>r. record_name r \<in> reps) (concat fs)) cs'"
proof (induction fs arbitrary: acc)
  case Nil
  then show ?case by simp
next
  case (Cons f fs)
  from Cons.prems obtain acc' where a: "gecco_records reps f acc = Inr acc'"
    and rest: "gecco_files reps fs acc' = Inr cs"
    by (auto split: sum.splits)
  from gecco_records_Inr [OF a] obtain c1 where c1: "acc' = acc @ c1"
    "list_all2 (\<lambda>r c. record_to_cluster r = Inr c) (filter (\<lambda>r. record_name r \<in> reps) f) c1"
    by blast
  from Cons.IH [OF rest] obtain c2 where c2: "cs = acc' @ c2"
    "list_all2 (\<lambda>r c. record_to_cluster r = Inr c)
       (filter (\<lambda>r. record_name r \<in> reps) (concat fs)) c2" by blast
  from c1 c2 show ?case
    by (intro exI [of _ "c1 @ c2"]) (simp add: list_all2_appendI)
qed

lemma antismash_records_Inl:
  "r \<in> set rs \<Longrightarrow> canonical (record_name r) \<in> reps \<Longrightarrow>
   region_to_cluster r (canonical (record_name r)) = Inl e \<Longrightarrow>
   \<exists>e'. antismash_records reps rs acc = Inl e'"
  by (induction rs arbitrary: acc) (auto simp: Let_def split: sum.splits)

lemma antismash_files_Inl:
  "r \<in> set (concat fs) \<Longrightarrow> canonical (record_name r) \<in> reps \<Longrightarrow>
   region_to_cluster r (canonical (record_name r)) = Inl e \<Longrightarrow>
   \<exists>e'. antismash_files reps fs acc = Inl e'"
proof (induction fs arbitrary: acc)
  case Nil
  then show ?case by simp
next
  case (Cons f fs)
  show ?case
  proof (cases "antismash_records reps f acc")
    case (Inl e')
    then show ?thesis by simp
  next
    case (Inr acc')
    with Cons.prems antismash_records_Inl [of r f reps e acc] have "r \<in> set (concat fs)"
      by auto
    from Cons.IH [OF this Cons.prems(2,3)] Inr show ?thesis by simp
  qed
qed

lemma gecco_records_Inl:
  "r \<in> set rs \<Longrightarrow> record_name r \<in> reps \<Longrightarrow> record_to_cluster r = Inl e \<Longrightarrow>
   \<exists>e'. gecco_records reps rs acc = Inl e'"
  by (induction rs arbitrary: acc) (auto split: sum.splits)

lemma gecco_files_Inl:
  "r \<in> set (concat fs) \<Longrightarrow> record_name r \<in> reps \<Longrightarrow> record_to_cluster r = Inl e \<Longrightarrow>
   \<exists>e'. gecco_files reps fs acc = Inl e'"
proof (induction fs arbitrary: acc)
  case Nil
  then show ?case by simp
next
  case (Cons f fs)
  show ?case
  proof (cases "gecco_records reps f acc")
    case (Inl e')
    then show ?thesis by simp
  next
    case (Inr acc')
    with Cons.prems gecco_records_Inl [of r f reps e acc] have "r \<in> set (concat fs)"
      by auto
    from Cons.IH [OF this Cons.prems(2,3)] Inr show ?thesis by simp
  qed
qed

lemma merged_clusters_Inl_antismash:
  "r \<in> set (concat as_files) \<Longrightarrow> canonical (record_name r) \<in> reps \<Longrightarrow>
   region_to_cluster r (canonical (record_name r)) = Inl e \<Longrightarrow>
   \<exists>e'. merged_clusters reps as_files ge_files = Inl e'"
  using antismash_files_Inl [of r as_files reps e "[]"]
  by (auto simp: merged_clusters_def)

lemma merged_clusters_Inl_gecco:
  "r \<in> set (concat ge_files) \<Longrightarrow> record_name r \<in> reps \<Longrightarrow> record_to_cluster r = Inl e \<Longrightarrow>
   \<exists>e'. merged_clusters reps as_files ge_files = Inl e'"
  using gecco_files_Inl [of r ge_files reps e "[]"]
  by (auto simp: merged_clusters_def split: sum.splits)

lemma main_Inl: "merged_clusters (representative_ids gcfs) as_files ge_files = Inl e \<Longrightarrow>
   main hits dc gcfs as_files ge_files = ([], Inl e)"
  by (simp add: main_def)

lemma region_gene_no_translation:
  "map_of (qualifiers cds) ''translation'' = None \<Longrightarrow> \<exists>e. region_gene r cds = Inl e"
  by (auto simp: region_gene_def Let_def first_value_map_of split: sum.splits)

lemma region_gene_no_translation_id:
  "map_of (qualifiers cds) ''translation'' = None \<Longrightarrow>
   map_of (qualifiers cds) ''locus_tag'' \<noteq> None \<or> map_of (qualifiers cds) ''protein_id'' \<noteq> None
     \<or> map_of (qualifiers cds) ''gene'' \<noteq> None \<Longrightarrow>
   region_gene r cds = Inl (KeyError ''translation'')"
  by (auto simp: region_gene_def Let_def first_value_map_of dom_to_dict split: sum.splits)

lemma record_gene_no_translation:
  "map_of (qualifiers cds) ''translation'' = None \<Longrightarrow> record_gene r cds = Inl (KeyError ''translation'')"
  by (simp add: record_gene_def Let_def first_value_map_of)

lemma region_to_cluster_Inl:
  "cds \<in> set (cds_features r) \<Longrightarrow> region_gene r cds = Inl e \<Longrightarrow> \<exists>e'. region_to_cluster r i = Inl e'"
  using collect_genes_Inl [of cds "cds_features r" "region_gene r" e "[]"]
  by (auto simp: region_to_cluster_def)

lemma record_to_cluster_Inl:
  "cds \<in> set (cds_features r) \<Longrightarrow> record_gene r cds = Inl e \<Longrightarrow> \<exists>e'. record_to_cluster r = Inl e'"
  using collect_genes_Inl [of cds "cds_features r" "record_gene r" e "[]"]
  by (auto simp: record_to_cluster_def)

lemmas example_defs = cds_tagged_def cds_anonymous_def cds_untranslated_def region_feature_def
  mibig_record_def gecco_record_def gecco_bgc_record_def anonymous_record_def untranslated_record_def
  example_gcfs_def tagged_gene_def anonymous_gene_def example_merged_def

lemmas ingest_defs = merged_clusters_def region_to_cluster_def record_to_cluster_def
  region_gene_def record_gene_def cds_features_def first_value_def to_dict_def
  canonical_def startswith_def rsplit1_def representative_ids_def Let_def dom_to_dict

lemma region_to_cluster_id: "region_to_cluster r i = Inr c \<Longrightarrow> cluster_id c = i"
  by (auto simp: region_to_cluster_def split: sum.splits)

lemma record_to_cluster_id: "record_to_cluster r = Inr c \<Longrightarrow> cluster_id c = record_name r"
  by (auto simp: record_to_cluster_def split: sum.splits)

lemma list_all2_map_eq:
  "list_all2 (\<lambda>x y. f x = Inr y) xs ys \<Longrightarrow> (\<And>x y. f x = Inr y \<Longrightarrow> h y = k x) \<Longrightarrow> map h ys = map k xs"
  by (induction xs ys rule: list_all2_induct) auto

text \<open>
  C3, as stated, fails for the GECCO family: line 151 tests the name of the record as it
  is, without the truncation. A GECCO record named \<^verbatim>\<open>BGC0000002.1\<close> is dropped
  although its canonical identifier is a representative, and it is kept when its raw
  name is one although its canonical identifier is not.
\<close>

theorem gecco_filter_uses_raw_name:
  "canonical (record_name gecco_bgc_record) \<in> {''BGC0000002''}
   \<and> merged_clusters {''BGC0000002''} [] [[gecco_bgc_record]] = Inr []
   \<and> canonical (record_name gecco_bgc_record) \<notin> {''BGC0000002.1''}
   \<and> merged_clusters {''BGC0000002.1''} [] [[gecco_bgc_record]] =
       Inr [\<lparr>cluster_id = ''BGC0000002.1'', genes = [tagged_gene gecco_bgc_record ''BGC0000002.1'']\<rparr>]"
  by (simp add: example_defs ingest_defs)

text \<open>
  C3, amended: when ingestion completes, the merged clusters are, in order, one cluster
  for each GECCO record whose name is a representative, named by that name, followed by
  one cluster for each antiSMASH record whose canonical name is a representative, named
  by the canonical name; no other cluster is in the collection.
\<close>

theorem representative_filtering:
  assumes "merged_clusters reps as_files ge_files = Inr cs"
  shows "\<exists>gcs acs. cs = gcs @ acs
     \<and> list_all2 (\<lambda>r c. record_to_cluster r = Inr c)
          (filter (\<lambda>r. record_name r \<in> reps) (concat ge_files)) gcs
     \<and> list_all2 (\<lambda>r c. region_to_cluster r (canonical (record_name r)) = Inr c)
          (filter (\<lambda>r. canonical (record_name r) \<in> reps) (concat as_files)) acs
     \<and> map cluster_id gcs = map record_name (filter (\<lambda>r. record_name r \<in> reps) (concat ge_files))
     \<and> map cluster_id acs =
         map (\<lambda>r. canonical (record_name r)) (filter (\<lambda>r. canonical (record_name r) \<in> reps) (concat as_files))"
proof -
  from assms obtain acs gcs where a: "antismash_files reps as_files [] = Inr acs"
    and g: "gecco_files reps ge_files [] = Inr gcs" and cs: "cs = gcs @ acs"
    by (auto simp: merged_clusters_def split: sum.splits)
  from antismash_files_Inr [OF a]
  have la: "list_all2 (\<lambda>r c. region_to_cluster r (canonical (record_name r)) = Inr c)
          (filter (\<lambda>r. canonical (record_name r) \<in> reps) (concat as_files)) acs" by simp
  from gecco_files_Inr [OF g]
  have lg: "list_all2 (\<lambda>r c. record_to_cluster r = Inr c)
          (filter (\<lambda>r. record_name r \<in> reps) (concat ge_files)) gcs" by simp
  have ia: "map cluster_id acs =
         map (\<lambda>r. canonical (record_name r)) (filter (\<lambda>r. canonical (record_name r) \<in> reps) (concat as_files))"
    using la by (rule list_all2_map_eq) (rule region_to_cluster_id)
  have ig: "map cluster_id gcs = map record_name (filter (\<lambda>r. record_name r \<in> reps) (concat ge_files))"
    using lg by (rule list_all2_map_eq) (rule record_to_cluster_id)
  from cs la lg ia ig show ?thesis by blast
qed

theorem representative_filtering_witness:
  "merged_clusters (representative_ids example_gcfs) [[mibig_record]] [[gecco_record, gecco_bgc_record]]
     = Inr example_merged
   \<and> map cluster_id example_merged = [''NZ_1_cluster_1'', ''BGC0000001'']"
proof -
  have h: "merged_clusters (representative_ids example_gcfs) [[mibig_record]] [[gecco_record, gecco_bgc_record]]
     = Inr example_merged"
    by (simp add: example_defs ingest_defs)
  from representative_filtering [OF h] obtain gcs acs where
    em: "example_merged = gcs @ acs" and
    g: "map cluster_id gcs = map record_name
       (filter (\<lambda>r. record_name r \<in> representative_ids example_gcfs) (concat [[gecco_record, gecco_bgc_record]]))" and
    a: "map cluster_id acs = map (\<lambda>r. canonical (record_name r))
       (filter (\<lambda>r. canonical (record_name r) \<in> representative_ids example_gcfs) (concat [[mibig_record]]))"
    by blast
  have "map cluster_id (gcs @ acs) = [''NZ_1_cluster_1'', ''BGC0000001'']"
    unfolding map_append g a
    by (simp add: example_gcfs_def gecco_record_def gecco_bgc_record_def mibig_record_def
        representative_ids_def canonical_def startswith_def rsplit1_def)
  then have "map cluster_id example_merged = [''NZ_1_cluster_1'', ''BGC0000001'']"
    by (subst em)
  with h show ?thesis by simp
qed

subsection \<open>Gene identifiers and translations\<close>

















text \<open>
  C10: a coding feature without a translation makes both normalisers raise: the GECCO
  one raises \<^verbatim>\<open>KeyError\<close>, the antiSMASH one too when the feature has an identifier
  (and exits otherwise). The record's normalisation fails, and when the record is kept
  by its family's filter the run ends with the exception and writes nothing.
\<close>

theorem missing_translation_is_fatal:
  assumes "cds \<in> set (cds_features r)" and "map_of (qualifiers cds) ''translation'' = None"
  shows "(\<exists>e. region_gene r cds = Inl e)
    \<and> (map_of (qualifiers cds) ''locus_tag'' \<noteq> None \<or> map_of (qualifiers cds) ''protein_id'' \<noteq> None
         \<or> map_of (qualifiers cds) ''gene'' \<noteq> None \<longrightarrow> region_gene r cds = Inl (KeyError ''translation''))
    \<and> record_gene r cds = Inl (KeyError ''translation'')
    \<and> (\<exists>e. region_to_cluster r bgc_id = Inl e)
    \<and> (\<exists>e. record_to_cluster r = Inl e)
    \<and> (r \<in> set (concat as_files) \<and> canonical (record_name r) \<in> representative_ids gcfs \<longrightarrow>
         (\<exists>e. main hits dc gcfs as_files ge_files = ([], Inl e)))
    \<and> (r \<in> set (concat ge_files) \<and> record_name r \<in> representative_ids gcfs \<longrightarrow>
         (\<exists>e. main hits dc gcfs as_files ge_files = ([], Inl e)))"
proof -
  from assms(2) obtain e1 where e1: "region_gene r cds = Inl e1"
    using region_gene_no_translation by blast
  have e2: "record_gene r cds = Inl (KeyError ''translation'')"
    using assms(2) by (rule record_gene_no_translation)
  have c1: "\<exists>e. region_to_cluster r i = Inl e" for i
    using assms(1) e1 by (rule region_to_cluster_Inl)
  have c2: "\<exists>e. record_to_cluster r = Inl e"
    using assms(1) e2 by (rule record_to_cluster_Inl)
  have m1: "\<exists>e. main hits dc gcfs as_files ge_files = ([], Inl e)"
    if "r \<in> set (concat as_files)" "canonical (record_name r) \<in> representative_ids gcfs"
  proof -
    from c1 obtain e where "region_to_cluster r (canonical (record_name r)) = Inl e" by blast
    from merged_clusters_Inl_antismash [OF that this] main_Inl show ?thesis by blast
  qed
  have m2: "\<exists>e. main hits dc gcfs as_files ge_files = ([], Inl e)"
    if "r \<in> set (concat ge_files)" "record_name r \<in> representative_ids gcfs"
  proof -
    from c2 obtain e where "record_to_cluster r = Inl e" by blast
    from merged_clusters_Inl_gecco [OF that this] main_Inl show ?thesis by blast
  qed
  from e1 e2 c1 c2 m1 m2 region_gene_no_translation_id [OF assms(2)] show ?thesis by blast
qed

theorem missing_translation_is_fatal_witness:
  "cds_untranslated \<in> set (cds_features untranslated_record)
   \<and> map_of (qualifiers cds_untranslated) ''translation'' = None
   \<and> map_of (qualifiers cds_untranslated) ''gene'' = Some ''abcB''
   \<and> region_gene untranslated_record cds_untranslated = Inl (KeyError ''translation'')
   \<and> record_gene untranslated_record cds_untranslated = Inl (KeyError ''translation'')
   \<and> untranslated_record \<in> set (concat [[untranslated_record]])
   \<and> record_name untranslated_record \<in> representative_ids untranslated_gcfs
   \<and> canonical (record_name untranslated_record) \<in> representative_ids untranslated_gcfs
   \<and> (\<exists>e. main example_hits domain_counts untranslated_gcfs [] [[untranslated_record]] = ([], Inl e))
   \<and> (\<exists>e. main example_hits domain_counts untranslated_gcfs [[untranslated_record]] [] = ([], Inl e))"
proof -
  have a: "cds_untranslated \<in> set (cds_features untranslated_record)"
    by (simp add: cds_features_def untranslated_record_def cds_untranslated_def)
  have b: "map_of (qualifiers cds_untranslated) ''translation'' = None"
    and c: "map_of (qualifiers cds_untranslated) ''gene'' = Some ''abcB''"
    by (simp_all add: cds_untranslated_def)
  have d: "untranslated_record \<in> set (concat [[untranslated_record]])" by simp
  have e: "record_name untranslated_record \<in> representative_ids untranslated_gcfs"
    by (simp add: untranslated_record_def representative_ids_def untranslated_gcfs_def)
  have f: "canonical (record_name untranslated_record) \<in> representative_ids untranslated_gcfs"
    by (simp add: untranslated_record_def representative_ids_def untranslated_gcfs_def
        canonical_def startswith_def)
  note m = missing_translation_is_fatal [OF a b, of "''x''" "[]" untranslated_gcfs
      example_hits domain_counts "[[untranslated_record]]"]
  note m' = missing_translation_is_fatal [OF a b, of "''x''" "[[untranslated_record]]" untranslated_gcfs
      example_hits domain_counts "[]"]
  from m c have 1: "region_gene untranslated_record cds_untranslated = Inl (KeyError ''translation'')"
    by simp
  from m have 2: "record_gene untranslated_record cds_untranslated = Inl (KeyError ''translation'')"
    by blast
  from m d e have 3: "\<exists>e. main example_hits domain_counts untranslated_gcfs [] [[untranslated_record]] = ([], Inl e)"
    by blast
  from m' d f have 4: "\<exists>e. main example_hits domain_counts untranslated_gcfs [[untranslated_record]] [] = ([], Inl e)"
    by blast
  from a b c d e f 1 2 3 4 show ?thesis by blast
qed

subsection \<open>Significance filter\<close>

lemma float_lt_not_ge: "float_lt x y \<Longrightarrow> \<not> float_ge x y"
  by (cases x; cases y) auto

lemma filter_gene_domains:
  "domains (protein (filter_gene g)) = filter (\<lambda>d. float_lt (pvalue d) threshold) (domains (protein g))"
proof -
  have "significant = (\<lambda>d. float_lt (pvalue d) threshold)"
    by (simp add: fun_eq_iff significant_def)
  then show ?thesis
    by (simp add: filter_gene_def with_protein_def with_domains_def)
qed

lemma filter_gene_fields:
  "source (filter_gene g) = source g \<and> start (filter_gene g) = start g
   \<and> end_pos (filter_gene g) = end_pos g \<and> strand (filter_gene g) = strand g
   \<and> protein_id (protein (filter_gene g)) = protein_id (protein g)
   \<and> seq (protein (filter_gene g)) = seq (protein g)"
  by (simp add: filter_gene_def with_protein_def with_domains_def)

lemma filter_gene_retained:
  "d \<in> set (domains (protein (filter_gene g))) \<Longrightarrow>
     float_lt (pvalue d) threshold \<and> \<not> float_ge (pvalue d) threshold"
  by (simp add: filter_gene_domains float_lt_not_ge)

lemma filter_gene_subseq: "subseq (domains (protein (filter_gene g))) (domains (protein g))"
  by (simp add: filter_gene_domains)

text \<open>
  C8: the filter keeps the list of genes and each gene's other fields; the domain list
  of each gene's protein after the filter is the list before it restricted to the
  domains with a p-value below the threshold, in the same order. It is a subsequence of
  the list before, and no domain in it has a p-value at or above the threshold.
\<close>

theorem significance_filter:
  "length (filter_genes gs) = length gs
   \<and> (\<forall>i < length gs.
        domains (protein (filter_genes gs ! i))
          = filter (\<lambda>d. float_lt (pvalue d) threshold) (domains (protein (gs ! i)))
      \<and> subseq (domains (protein (filter_genes gs ! i))) (domains (protein (gs ! i)))
      \<and> (\<forall>d \<in> set (domains (protein (filter_genes gs ! i))).
            float_lt (pvalue d) threshold \<and> \<not> float_ge (pvalue d) threshold)
      \<and> source (filter_genes gs ! i) = source (gs ! i)
      \<and> start (filter_genes gs ! i) = start (gs ! i)
      \<and> end_pos (filter_genes gs ! i) = end_pos (gs ! i)
      \<and> strand (filter_genes gs ! i) = strand (gs ! i)
      \<and> protein_id (protein (filter_genes gs ! i)) = protein_id (protein (gs ! i))
      \<and> seq (protein (filter_genes gs ! i)) = seq (protein (gs ! i)))"
proof (intro conjI allI impI)
  show "length (filter_genes gs) = length gs" by (simp add: filter_genes_def)
next
  fix i assume i: "i < length gs"
  then have nth: "filter_genes gs ! i = filter_gene (gs ! i)" by (simp add: filter_genes_def)
  show "domains (protein (filter_genes gs ! i))
          = filter (\<lambda>d. float_lt (pvalue d) threshold) (domains (protein (gs ! i)))"
    unfolding nth by (rule filter_gene_domains)
  show "subseq (domains (protein (filter_genes gs ! i))) (domains (protein (gs ! i)))"
    unfolding nth by (rule filter_gene_subseq)
  show "\<forall>d \<in> set (domains (protein (filter_genes gs ! i))).
            float_lt (pvalue d) threshold \<and> \<not> float_ge (pvalue d) threshold"
    unfolding nth using filter_gene_retained by blast
  show "source (filter_genes gs ! i) = source (gs ! i)"
    "start (filter_genes gs ! i) = start (gs ! i)"
    "end_pos (filter_genes gs ! i) = end_pos (gs ! i)"
    "strand (filter_genes gs ! i) = strand (gs ! i)"
    "protein_id (protein (filter_genes gs ! i)) = protein_id (protein (gs ! i))"
    "seq (protein (filter_genes gs ! i)) = seq (protein (gs ! i))"
    unfolding nth using filter_gene_fields [of "gs ! i"] by blast+
qed


lemma annotated_gene_domains: "domains (protein annotated_gene) = [PF1_weak, PF2_strong, TIGR_nan, PF1_strong]"
  by (simp add: annotated_gene_def add_domains_def with_protein_def with_domains_def tagged_gene_def)

lemma example_significance: "\<not> float_lt (pvalue PF1_weak) threshold" "float_lt (pvalue PF2_strong) threshold"
  "\<not> float_lt (pvalue TIGR_nan) threshold" "float_lt (pvalue PF1_strong) threshold"
  "float_ge (pvalue PF1_weak) threshold"
  by (simp_all add: PF1_weak_def PF2_strong_def TIGR_nan_def PF1_strong_def threshold_def)


theorem significance_filter_witness:
  "length (filter_genes [annotated_gene]) = 1
   \<and> domains (protein (filter_genes [annotated_gene] ! 0)) = [PF2_strong, PF1_strong]
   \<and> domains (protein annotated_gene) = [PF1_weak, PF2_strong, TIGR_nan, PF1_strong]
   \<and> float_ge (pvalue PF1_weak) threshold"
proof -
  have i: "(0::nat) < length [annotated_gene]" by simp
  from significance_filter [of "[annotated_gene]"] i
  have l: "length (filter_genes [annotated_gene]) = length [annotated_gene]"
    and d: "domains (protein (filter_genes [annotated_gene] ! 0))
          = filter (\<lambda>d. float_lt (pvalue d) threshold) (domains (protein ([annotated_gene] ! 0)))"
    by blast+
  have "domains (protein (filter_genes [annotated_gene] ! 0)) = [PF2_strong, PF1_strong]"
    unfolding d by (simp add: annotated_gene_domains example_significance)
  with l show ?thesis by (simp add: annotated_gene_domains example_significance)
qed

subsection \<open>Regrouping\<close>

lemma concat_groupby: "concat (map snd (groupby key xs)) = xs"
  by (induction key xs rule: groupby.induct) simp_all

lemma groupby_keys: "fst ` set (groupby key xs) = key ` set xs"
proof (induction key xs rule: groupby.induct)
  case (1 key)
  then show ?case by simp
next
  case (2 key x xs)
  have "set xs = set (takeWhile (\<lambda>y. key y = key x) xs) \<union> set (dropWhile (\<lambda>y. key y = key x) xs)"
    by (metis set_append takeWhile_dropWhile_id)
  moreover have "key ` set (takeWhile (\<lambda>y. key y = key x) xs) \<subseteq> {key x}"
    by (auto dest: set_takeWhileD)
  ultimately have "key ` set (x # xs) = insert (key x) (key ` set (dropWhile (\<lambda>y. key y = key x) xs))"
    by auto
  with 2 show ?case by simp
qed

lemma groupby_nonempty: "(k, ys) \<in> set (groupby key xs) \<Longrightarrow> ys \<noteq> []"
  by (induction key xs rule: groupby.induct) auto

lemma sorted_run:
  fixes key :: "'a \<Rightarrow> 'k::linorder"
  shows "sorted (map key (x # xs)) \<Longrightarrow>
     takeWhile (\<lambda>y. key y = key x) xs = filter (\<lambda>y. key y = key x) xs
     \<and> dropWhile (\<lambda>y. key y = key x) xs = filter (\<lambda>y. key y \<noteq> key x) xs"
proof (induction xs)
  case Nil
  show ?case by simp
next
  case (Cons y ys)
  have s: "sorted (map key (x # ys))" using Cons.prems by simp
  show ?case
  proof (cases "key y = key x")
    case True
    with Cons.IH [OF s] show ?thesis by simp
  next
    case False
    with Cons.prems have "key x < key y" by auto
    moreover have "\<forall>z \<in> set ys. key y \<le> key z" using Cons.prems by simp
    ultimately have n: "\<forall>z \<in> set ys. key z \<noteq> key x" by auto
    then have "filter (\<lambda>y. key y = key x) ys = []" by (simp add: filter_empty_conv)
    moreover from n have "filter (\<lambda>y. key y \<noteq> key x) ys = ys" by (simp add: filter_id_conv)
    ultimately show ?thesis using False by simp
  qed
qed

lemma groupby_sorted_member:
  fixes key :: "'a \<Rightarrow> 'k::linorder"
  shows "sorted (map key xs) \<Longrightarrow> (k, ys) \<in> set (groupby key xs) \<Longrightarrow>
     ys = filter (\<lambda>y. key y = k) xs"
proof (induction key xs rule: groupby.induct)
  case (1 key)
  then show ?case by simp
next
  case (2 key x xs)
  note run = sorted_run [OF "2.prems"(1)]
  have s': "sorted (map key (dropWhile (\<lambda>y. key y = key x) xs))"
    using "2.prems"(1) by (simp add: run sorted_filter)
  from "2.prems"(2) consider "k = key x" "ys = x # takeWhile (\<lambda>y. key y = key x) xs"
    | "(k, ys) \<in> set (groupby key (dropWhile (\<lambda>y. key y = key x) xs))" by auto
  then show ?case
  proof cases
    case 1
    then show ?thesis by (simp add: run)
  next
    case 2
    from "2.IH" [OF s' 2] have ys: "ys = filter (\<lambda>y. key y = k) (dropWhile (\<lambda>y. key y = key x) xs)" .
    from 2 have "k \<in> key ` set (dropWhile (\<lambda>y. key y = key x) xs)"
      using groupby_keys [of key "dropWhile (\<lambda>y. key y = key x) xs"] by force
    then have ne: "k \<noteq> key x" by (auto simp: run)
    have "filter (\<lambda>y. key y = k) (filter (\<lambda>y. key y \<noteq> key x) xs) = filter (\<lambda>y. key y = k) xs"
      using ne by (auto intro: filter_cong)
    with ys ne show ?thesis by (auto simp: run)
  qed
qed

lemma groupby_sorted_distinct:
  fixes key :: "'a \<Rightarrow> 'k::linorder"
  shows "sorted (map key xs) \<Longrightarrow> distinct (map fst (groupby key xs))"
proof (induction key xs rule: groupby.induct)
  case (1 key)
  then show ?case by simp
next
  case (2 key x xs)
  note run = sorted_run [OF "2.prems"]
  have s': "sorted (map key (dropWhile (\<lambda>y. key y = key x) xs))"
    using "2.prems" by (simp add: run sorted_filter)
  have "key x \<notin> key ` set (dropWhile (\<lambda>y. key y = key x) xs)"
    by (auto simp: run)
  then have "key x \<notin> fst ` set (groupby key (dropWhile (\<lambda>y. key y = key x) xs))"
    by (simp add: groupby_keys)
  with "2.IH" [OF s'] show ?case by simp
qed


lemma sorted_sort_genes: "sorted (map source_name (sort_genes gs))"
  by (simp add: sort_genes_def)

lemma regroup_member:
  assumes "C \<in> set (regroup (sort_genes gs))"
  shows "\<exists>k \<in> source_name ` set gs. cluster_id C = canonical k
           \<and> genes C = filter (\<lambda>g. source_name g = k) gs \<and> genes C \<noteq> []"
proof -
  from assms obtain k ys where m: "(k, ys) \<in> set (groupby source_name (sort_genes gs))"
    and C: "C = \<lparr>cluster_id = canonical k, genes = ys\<rparr>"
    by (auto simp: regroup_def)
  from groupby_sorted_member [OF sorted_sort_genes m]
  have "ys = filter (\<lambda>g. source_name g = k) gs"
    by (simp add: sort_genes_def sort_key_stable)
  moreover from m have "ys \<noteq> []" by (rule groupby_nonempty)
  moreover from m have "k \<in> source_name ` set gs"
    using groupby_keys [of source_name "sort_genes gs"] by (force simp: sort_genes_def)
  ultimately show ?thesis using C by auto
qed

lemma regroup_ids:
  "cluster_id ` set (regroup (sort_genes gs)) = canonical ` source_name ` set gs"
proof -
  have "cluster_id ` set (regroup (sort_genes gs))
      = canonical ` fst ` set (groupby source_name (sort_genes gs))"
    by (force simp: regroup_def image_iff)
  then show ?thesis by (simp add: groupby_keys sort_genes_def)
qed

lemma regroup_distinct:
  assumes "inj_on canonical (source_name ` set gs)"
  shows "distinct (map cluster_id (regroup (sort_genes gs)))"
proof -
  let ?groups = "groupby source_name (sort_genes gs)"
  have m: "map cluster_id (regroup (sort_genes gs)) = map canonical (map fst ?groups)"
    by (simp add: regroup_def split_def comp_def)
  have d: "distinct (map fst ?groups)"
    by (rule groupby_sorted_distinct) (rule sorted_sort_genes)
  have st: "set (map fst ?groups) = source_name ` set gs"
    using groupby_keys [of source_name "sort_genes gs"] by (simp add: sort_genes_def)
  have i: "inj_on canonical (set (map fst ?groups))"
    using assms by (simp only: st)
  show ?thesis
    unfolding m using d i distinct_map [of canonical "map fst ?groups"] by blast
qed

lemma filter_flatten:
  assumes "\<forall>c \<in> set cs. \<forall>g \<in> set (genes c). source_name g = src c"
  shows "filter (\<lambda>g. source_name g = k) (flatten cs) = concat (map genes (filter (\<lambda>c. src c = k) cs))"
  using assms
proof (induction cs)
  case Nil
  then show ?case by (simp add: flatten_def)
next
  case (Cons c cs)
  then have ih: "filter (\<lambda>g. source_name g = k) (flatten cs) = concat (map genes (filter (\<lambda>c. src c = k) cs))"
    by simp
  from Cons.prems have own: "\<forall>g \<in> set (genes c). source_name g = src c" by simp
  have "filter (\<lambda>g. source_name g = k) (genes c) = (if src c = k then genes c else [])"
    using own by (auto simp: filter_id_conv filter_empty_conv)
  with ih show ?case by (simp add: flatten_def)
qed

lemma flatten_sources:
  assumes "\<forall>c \<in> set cs. \<forall>g \<in> set (genes c). source_name g = src c"
  shows "source_name ` set (flatten cs) \<subseteq> src ` set cs"
  using assms by (auto simp: flatten_def)

text \<open>Regrouping a flattened grouping whose genes refer back to their clusters.\<close>

lemma regroup_grouping:
  assumes own: "\<forall>c \<in> set cs. \<forall>g \<in> set (genes c). source_name g = src c"
      and nocoll: "inj_on canonical (src ` set cs)"
  shows "distinct (map cluster_id (regroup (sort_genes (flatten cs))))
    \<and> (\<forall>C \<in> set (regroup (sort_genes (flatten cs))).
          genes C \<noteq> []
        \<and> genes C = concat (map genes (filter (\<lambda>c. canonical (src c) = cluster_id C) cs)))
    \<and> (\<forall>c \<in> set cs. genes c \<noteq> [] \<longrightarrow>
          canonical (src c) \<in> cluster_id ` set (regroup (sort_genes (flatten cs))))"
proof (intro conjI ballI impI)
  from nocoll flatten_sources [OF own] have "inj_on canonical (source_name ` set (flatten cs))"
    by (rule inj_on_subset)
  then show "distinct (map cluster_id (regroup (sort_genes (flatten cs))))"
    by (rule regroup_distinct)
next
  fix C assume "C \<in> set (regroup (sort_genes (flatten cs)))"
  from regroup_member [OF this] obtain k where k: "k \<in> source_name ` set (flatten cs)"
    and id: "cluster_id C = canonical k"
    and gs: "genes C = filter (\<lambda>g. source_name g = k) (flatten cs)" and ne: "genes C \<noteq> []"
    by blast
  from ne show "genes C \<noteq> []" .
  from k flatten_sources [OF own] have ks: "k \<in> src ` set cs" by blast
  have "filter (\<lambda>c. canonical (src c) = cluster_id C) cs = filter (\<lambda>c. src c = k) cs"
  proof (rule filter_cong [OF refl])
    fix c assume "c \<in> set cs"
    with ks nocoll show "(canonical (src c) = cluster_id C) = (src c = k)"
      unfolding id by (auto dest: inj_onD)
  qed
  with gs filter_flatten [OF own, of k]
  show "genes C = concat (map genes (filter (\<lambda>c. canonical (src c) = cluster_id C) cs))"
    by simp
next
  fix c assume c: "c \<in> set cs" and ne: "genes c \<noteq> []"
  then obtain g where g: "g \<in> set (genes c)" by (cases "genes c") auto
  with c own have "source_name g = src c" by blast
  moreover from g c have "g \<in> set (flatten cs)" by (auto simp: flatten_def)
  ultimately have "canonical (src c) \<in> canonical ` source_name ` set (flatten cs)" by force
  then show "canonical (src c) \<in> cluster_id ` set (regroup (sort_genes (flatten cs)))"
    by (simp add: regroup_ids)
qed


lemma unflatten:
  "map f ys = map f (concat xss) \<Longrightarrow>
     \<exists>yss. concat yss = ys \<and> list_all2 (\<lambda>xs ys'. map f ys' = map f xs) xss yss"
proof (induction xss arbitrary: ys)
  case Nil
  then show ?case by simp
next
  case (Cons xs xss)
  let ?y1 = "take (length xs) ys" and ?y2 = "drop (length xs) ys"
  from Cons.prems have e: "map f ys = map f xs @ map f (concat xss)" by simp
  have 1: "map f ?y1 = map f xs"
    using arg_cong [OF e, of "take (length xs)"] by (simp add: take_map)
  have 2: "map f ?y2 = map f (concat xss)"
    using arg_cong [OF e, of "drop (length xs)"] by (simp add: drop_map)
  from Cons.IH [OF 2] obtain yss where "concat yss = ?y2"
    "list_all2 (\<lambda>xs ys'. map f ys' = map f xs) xss yss" by blast
  with 1 show ?case by (intro exI [of _ "?y1 # yss"]) simp
qed

lemma example_sorted: "sort_genes (flatten example_merged) =
  [tagged_gene mibig_record ''tagA'', tagged_gene gecco_record ''NZ_1_cluster_1'',
   anonymous_gene gecco_record ''NZ_1_cluster_1'']"
  by (simp add: example_merged_def flatten_def sort_genes_def source_name_def tagged_gene_def
      anonymous_gene_def mibig_record_def gecco_record_def)

lemma example_regrouped: "regroup (sort_genes (flatten example_merged)) =
  [\<lparr>cluster_id = ''BGC0000001'', genes = [tagged_gene mibig_record ''tagA'']\<rparr>,
   \<lparr>cluster_id = ''NZ_1_cluster_1'',
      genes = [tagged_gene gecco_record ''NZ_1_cluster_1'', anonymous_gene gecco_record ''NZ_1_cluster_1'']\<rparr>]"
  unfolding example_sorted
  by (simp add: regroup_def source_name_def tagged_gene_def
      anonymous_gene_def mibig_record_def gecco_record_def canonical_def startswith_def rsplit1_def)


lemma region_gene_source: "region_gene r cds = Inr g \<Longrightarrow> source g = r"
  by (auto simp: region_gene_def Let_def split: sum.splits if_splits)

lemma record_gene_source: "record_gene r cds = Inr g \<Longrightarrow> source g = r"
  by (auto simp: record_gene_def Let_def split: sum.splits)

lemma list_all2_range:
  "list_all2 (\<lambda>x y. f x = Inr y) xs ys \<Longrightarrow> (\<And>x y. f x = Inr y \<Longrightarrow> P y) \<Longrightarrow> \<forall>y \<in> set ys. P y"
  by (induction xs ys rule: list_all2_induct) auto

lemma region_to_cluster_sources:
  assumes "region_to_cluster r i = Inr c"
  shows "\<forall>g \<in> set (genes c). source g = r"
proof -
  from assms obtain gs where g: "collect_genes (region_gene r) (cds_features r) [] = Inr gs"
    and c: "genes c = gs"
    by (auto simp: region_to_cluster_def split: sum.splits)
  from collect_genes_Inr [OF g] have "list_all2 (\<lambda>x g. region_gene r x = Inr g) (cds_features r) gs"
    by simp
  then have "\<forall>g \<in> set gs. source g = r" by (rule list_all2_range) (rule region_gene_source)
  with c show ?thesis by simp
qed

lemma record_to_cluster_sources:
  assumes "record_to_cluster r = Inr c"
  shows "\<forall>g \<in> set (genes c). source g = r"
proof -
  from assms obtain gs where g: "collect_genes (record_gene r) (cds_features r) [] = Inr gs"
    and c: "genes c = gs"
    by (auto simp: record_to_cluster_def split: sum.splits)
  from collect_genes_Inr [OF g] have "list_all2 (\<lambda>x g. record_gene r x = Inr g) (cds_features r) gs"
    by simp
  then have "\<forall>g \<in> set gs. source g = r" by (rule list_all2_range) (rule record_gene_source)
  with c show ?thesis by simp
qed

lemma filter_genes_sources: "map source (filter_genes gs) = map source gs"
  by (simp add: filter_genes_def filter_gene_fields)

lemma hmmer_run_sources: "map source (hmmer_run hits h gs) = map source gs"
proof -
  have "map source (map (\<lambda>(i, g). add_domains g (hits h gs' i)) (enumerate n gs)) = map source gs" for gs' n
    by (induction gs arbitrary: n) (simp_all add: add_domains_def with_protein_def)
  then show ?thesis by (simp add: hmmer_run_def)
qed

lemma fold_hmmer_run_sources: "map source (fold (hmmer_run hits) hs gs) = map source gs"
  by (induction hs arbitrary: gs) (simp_all add: hmmer_run_sources)

lemma annotate_sources: "map source (annotate hits gs) = map source gs"
  by (simp add: annotate_def fold_hmmer_run_sources)

text \<open>
  The list that is regrouped is the flattening of the ingested grouping, each gene
  replaced by its annotated and filtered form, which has the same source.
\<close>

lemma processed_genes_grouping:
  "\<exists>gss. concat gss = filter_genes (annotate hits (flatten cs))
     \<and> list_all2 (\<lambda>c gs. map source gs = map source (genes c)) cs gss"
proof -
  have "map source (filter_genes (annotate hits (flatten cs))) = map source (concat (map genes cs))"
    by (simp add: filter_genes_sources annotate_sources flatten_def)
  from unflatten [OF this] obtain gss where g: "concat gss = filter_genes (annotate hits (flatten cs))"
    and l: "list_all2 (\<lambda>xs ys'. map source ys' = map source xs) (map genes cs) gss" by blast
  from l have "list_all2 (\<lambda>c gs. map source gs = map source (genes c)) cs gss"
    by (simp add: list_all2_map1)
  with g show ?thesis by blast
qed

lemma without_domains_add_domains: "without_domains (add_domains g ds) = without_domains g"
  by (simp add: without_domains_def add_domains_def with_protein_def with_domains_def)

lemma without_domains_filter_gene: "without_domains (filter_gene g) = without_domains g"
  by (simp add: without_domains_def filter_gene_def with_protein_def with_domains_def)

lemma source_name_without_domains: "source_name (without_domains g) = source_name g"
  by (simp add: without_domains_def source_name_def with_protein_def)

lemma hmmer_run_without_domains:
  "map without_domains (hmmer_run hits h gs) = map without_domains gs"
proof -
  have "map without_domains (map (\<lambda>(i, g). add_domains g (hits h gs' i)) (enumerate n gs))
      = map without_domains gs" for gs' n
    by (induction gs arbitrary: n) (simp_all add: without_domains_add_domains)
  then show ?thesis by (simp add: hmmer_run_def)
qed

lemma fold_hmmer_run_without_domains:
  "map without_domains (fold (hmmer_run hits) hs gs) = map without_domains gs"
  by (induction hs arbitrary: gs) (simp_all add: hmmer_run_without_domains)

lemma processed_without_domains:
  "map without_domains (filter_genes (annotate hits gs)) = map without_domains gs"
  by (simp add: filter_genes_def annotate_def without_domains_filter_gene
      fold_hmmer_run_without_domains [simplified map_map comp_def] comp_def)


lemma pieces_concat: "pieces (map length xss) (concat xss) = xss"
  by (induction xss) simp_all

lemma pieces_map: "map (map f) (pieces ns xs) = pieces ns (map f xs)"
  by (induction ns arbitrary: xs) (simp_all add: take_map drop_map)

lemma concat_pieces: "length xs = sum_list ns \<Longrightarrow> concat (pieces ns xs) = xs"
  by (induction ns arbitrary: xs) simp_all

lemma length_pieces: "length (pieces ns xs) = length ns"
  by (induction ns arbitrary: xs) simp_all

lemma concat_processed: "concat (processed hits cs) = filter_genes (annotate hits (flatten cs))"
proof -
  have "length (filter_genes (annotate hits (flatten cs))) = length (flatten cs)"
    using arg_cong [OF processed_without_domains [of hits "flatten cs"], of length] by simp
  also have "\<dots> = sum_list (map (\<lambda>c. length (genes c)) cs)"
    by (simp add: flatten_def length_concat comp_def)
  finally show ?thesis unfolding processed_def by (rule concat_pieces)
qed

lemma processed_pieces:
  "map (map without_domains) (processed hits cs) = map (\<lambda>c. map without_domains (genes c)) cs"
proof -
  have "map (map without_domains) (processed hits cs)
      = pieces (map (\<lambda>c. length (genes c)) cs) (map without_domains (flatten cs))"
    by (simp add: processed_def pieces_map processed_without_domains)
  also have "map without_domains (flatten cs) = concat (map (\<lambda>c. map without_domains (genes c)) cs)"
    by (simp add: flatten_def map_concat comp_def)
  also have "map (\<lambda>c. length (genes c)) cs = map length (map (\<lambda>c. map without_domains (genes c)) cs)"
    by (simp add: comp_def)
  finally show ?thesis by (simp only: pieces_concat)
qed

lemma processed_same_genes:
  "list_all2 (\<lambda>c gs. map without_domains gs = map without_domains (genes c)) cs (processed hits cs)"
proof -
  have "length (processed hits cs) = length cs" by (simp add: processed_def length_pieces)
  moreover have "map without_domains (processed hits cs ! i) = map without_domains (genes (cs ! i))"
    if "i < length cs" for i
  proof -
    from that \<open>length (processed hits cs) = length cs\<close>
    have "map without_domains (processed hits cs ! i) = map (map without_domains) (processed hits cs) ! i"
      by simp
    also have "\<dots> = map without_domains (genes (cs ! i))"
      unfolding processed_pieces using that by simp
    finally show ?thesis .
  qed
  ultimately show ?thesis by (simp add: list_all2_conv_all_nth)
qed

lemma same_genes_sources:
  assumes "map without_domains gs = map without_domains gs'"
  shows "map source_name gs = map source_name gs'"
proof -
  have "map source_name xs = map source_name (map without_domains xs)" for xs
    by (simp add: comp_def source_name_without_domains)
  with assms show ?thesis by metis
qed

lemma filter_concat_pairs:
  assumes "\<forall>p \<in> set ps. \<forall>g \<in> set (snd p). source_name g = src (fst p)"
  shows "filter (\<lambda>g. source_name g = k) (concat (map snd ps))
       = concat (map snd (filter (\<lambda>p. src (fst p) = k) ps))"
  using assms
proof (induction ps)
  case Nil
  then show ?case by simp
next
  case (Cons p ps)
  then have ih: "filter (\<lambda>g. source_name g = k) (concat (map snd ps))
       = concat (map snd (filter (\<lambda>p. src (fst p) = k) ps))" by simp
  from Cons.prems have own: "\<forall>g \<in> set (snd p). source_name g = src (fst p)" by simp
  have "filter (\<lambda>g. source_name g = k) (snd p) = (if src (fst p) = k then snd p else [])"
    using own by (auto simp: filter_id_conv filter_empty_conv)
  with ih show ?case by simp
qed


text \<open>
  C4, as stated, fails: a kept record without coding features is ingested as a cluster
  without genes, which leaves nothing in the flat list, so no cluster is reconstructed
  for it.
\<close>

theorem empty_cluster_not_regrouped:
  "merged_clusters {''NZ_3_cluster_1''} [[mibig_record]] [[gecco_record, empty_record]] =
     Inr [\<lparr>cluster_id = ''NZ_3_cluster_1'', genes = []\<rparr>]
   \<and> regroup (sort_genes (filter_genes (annotate example_hits
        (flatten [\<lparr>cluster_id = ''NZ_3_cluster_1'', genes = []\<rparr>])))) = []"
  by (simp add: empty_record_def region_feature_def mibig_record_def gecco_record_def ingest_defs
      flatten_def annotate_def HMMS_def hmmer_run_def filter_genes_def sort_genes_def regroup_def)

text \<open>The regrouping of the processed list, in terms of the ingested clusters.\<close>

lemma regroup_processed:
  assumes own: "\<forall>c \<in> set cs. \<forall>g \<in> set (genes c). source_name g = src c"
      and nocoll: "inj_on canonical (src ` set cs)"
  shows "concat (processed hits cs) = filter_genes (annotate hits (flatten cs))
    \<and> list_all2 (\<lambda>c gs. map without_domains gs = map without_domains (genes c)) cs (processed hits cs)
    \<and> distinct (map cluster_id (regroup (sort_genes (filter_genes (annotate hits (flatten cs))))))
    \<and> cluster_id ` set (regroup (sort_genes (filter_genes (annotate hits (flatten cs)))))
        = canonical ` src ` {c \<in> set cs. genes c \<noteq> []}
    \<and> (\<forall>C \<in> set (regroup (sort_genes (filter_genes (annotate hits (flatten cs))))).
          genes C \<noteq> []
        \<and> genes C = concat (map snd (filter (\<lambda>(c, gs). canonical (src c) = cluster_id C)
                                        (zip cs (processed hits cs)))))"
proof (intro conjI ballI)
  let ?G = "filter_genes (annotate hits (flatten cs))"
  let ?P = "processed hits cs"
  let ?ps = "zip cs ?P"
  show cP: "concat ?P = ?G" by (rule concat_processed)
  show same: "list_all2 (\<lambda>c gs. map without_domains gs = map without_domains (genes c)) cs ?P"
    by (rule processed_same_genes)
  from same have len: "length ?P = length cs" by (simp add: list_all2_lengthD)
  have snd_ps: "map snd ?ps = ?P" using len by simp
  have names: "map source_name ?G = map source_name (flatten cs)"
    using processed_without_domains by (rule same_genes_sources)
  then have img: "source_name ` set ?G = source_name ` set (flatten cs)"
    by (metis set_map)
  have own_flat: "source_name ` set (flatten cs) = src ` {c \<in> set cs. genes c \<noteq> []}"
  proof (rule set_eqI, rule iffI)
    fix n assume "n \<in> source_name ` set (flatten cs)"
    then obtain c g where "c \<in> set cs" "g \<in> set (genes c)" "n = source_name g"
      by (auto simp: flatten_def)
    with own have "n = src c" "genes c \<noteq> []" by auto
    with \<open>c \<in> set cs\<close> show "n \<in> src ` {c \<in> set cs. genes c \<noteq> []}" by blast
  next
    fix n assume "n \<in> src ` {c \<in> set cs. genes c \<noteq> []}"
    then obtain c where c: "c \<in> set cs" "genes c \<noteq> []" "n = src c" by blast
    then obtain g where g: "g \<in> set (genes c)" by (cases "genes c") auto
    with c own have "source_name g = n" by blast
    moreover from g c have "g \<in> set (flatten cs)" by (auto simp: flatten_def)
    ultimately show "n \<in> source_name ` set (flatten cs)" by blast
  qed
  have sub: "source_name ` set ?G \<subseteq> src ` set cs" unfolding img own_flat by blast
  from nocoll sub have inj: "inj_on canonical (source_name ` set ?G)" by (rule inj_on_subset)
  then show "distinct (map cluster_id (regroup (sort_genes ?G)))" by (rule regroup_distinct)
  show "cluster_id ` set (regroup (sort_genes ?G)) = canonical ` src ` {c \<in> set cs. genes c \<noteq> []}"
    by (simp only: regroup_ids img own_flat)
  have own_ps: "\<forall>p \<in> set ?ps. \<forall>g \<in> set (snd p). source_name g = src (fst p)"
  proof (intro ballI)
    fix p g assume p: "p \<in> set ?ps" and g: "g \<in> set (snd p)"
    obtain c gs where pc: "p = (c, gs)" by (cases p)
    with p have c: "c \<in> set cs" by (auto dest: set_zip_leftD)
    from p pc same have "map without_domains gs = map without_domains (genes c)"
      by (auto simp: list_all2_iff)
    then have "map source_name gs = map source_name (genes c)" by (rule same_genes_sources)
    then have "source_name ` set gs = source_name ` set (genes c)" by (metis set_map)
    with g pc obtain g' where "g' \<in> set (genes c)" "source_name g = source_name g'" by auto
    with c own pc show "source_name g = src (fst p)" by auto
  qed
  fix C assume "C \<in> set (regroup (sort_genes ?G))"
  from regroup_member [OF this] obtain k where k: "k \<in> source_name ` set ?G"
    and id: "cluster_id C = canonical k"
    and gs: "genes C = filter (\<lambda>g. source_name g = k) ?G" and ne: "genes C \<noteq> []"
    by blast
  from ne show "genes C \<noteq> []" .
  from k sub have ks: "k \<in> src ` set cs" by blast
  have "filter (\<lambda>(c, gs). canonical (src c) = cluster_id C) ?ps = filter (\<lambda>p. src (fst p) = k) ?ps"
  proof (rule filter_cong [OF refl])
    fix p assume "p \<in> set ?ps"
    then have "fst p \<in> set cs" by (metis prod.collapse set_zip_leftD)
    with ks nocoll show "(case p of (c, gs) \<Rightarrow> canonical (src c) = cluster_id C) = (src (fst p) = k)"
      unfolding id by (cases p) (auto dest: inj_onD)
  qed
  moreover have "filter (\<lambda>g. source_name g = k) ?G = concat (map snd (filter (\<lambda>p. src (fst p) = k) ?ps))"
    using filter_concat_pairs [OF own_ps, of k] by (simp only: snd_ps cP)
  ultimately show "genes C = concat (map snd (filter (\<lambda>(c, gs). canonical (src c) = cluster_id C) ?ps))"
    using gs by simp
qed

text \<open>
  C4, amended: let \<open>cs\<close> be the ingested clusters, \<open>src\<close> giving the record name each
  was read from (every gene refers back to that record), and let no two distinct names
  collide after canonicalisation. The annotated and filtered flat list is the
  concatenation of the clusters' gene lists as processed, each holding the same genes
  up to their domain lists. Sorting that list by source name and cutting it into runs
  gives clusters with distinct identifiers, which are exactly the canonical names of the
  ingested clusters that own a gene; each reconstructed cluster is not empty and holds
  exactly the processed genes of the ingested clusters of that canonical name, in their
  order. So the name of an ingested cluster without genes is among the reconstructed
  identifiers only when another ingested cluster of that canonical name owns a gene.
\<close>

theorem regrouping_round_trip:
  assumes own: "\<forall>c \<in> set cs. \<forall>g \<in> set (genes c). source_name g = src c"
      and nocoll: "inj_on canonical (src ` set cs)"
  shows "concat (processed hits cs) = filter_genes (annotate hits (flatten cs))
    \<and> list_all2 (\<lambda>c gs. map without_domains gs = map without_domains (genes c)) cs (processed hits cs)
    \<and> distinct (map cluster_id (regroup (sort_genes (filter_genes (annotate hits (flatten cs))))))
    \<and> cluster_id ` set (regroup (sort_genes (filter_genes (annotate hits (flatten cs)))))
        = canonical ` src ` {c \<in> set cs. genes c \<noteq> []}
    \<and> (\<forall>C \<in> set (regroup (sort_genes (filter_genes (annotate hits (flatten cs))))).
          genes C \<noteq> []
        \<and> genes C = concat (map snd (filter (\<lambda>(c, gs). canonical (src c) = cluster_id C)
                                        (zip cs (processed hits cs)))))
    \<and> (\<forall>c \<in> set cs. genes c = []
          \<and> canonical (src c)
              \<in> cluster_id ` set (regroup (sort_genes (filter_genes (annotate hits (flatten cs))))) \<longrightarrow>
          (\<exists>c' \<in> set cs. genes c' \<noteq> [] \<and> canonical (src c') = canonical (src c)))"
proof -
  note p = regroup_processed [OF own nocoll, of hits]
  from p have ids: "cluster_id ` set (regroup (sort_genes (filter_genes (annotate hits (flatten cs)))))
        = canonical ` src ` {c \<in> set cs. genes c \<noteq> []}" by blast
  have "\<forall>c \<in> set cs. genes c = []
          \<and> canonical (src c)
              \<in> cluster_id ` set (regroup (sort_genes (filter_genes (annotate hits (flatten cs))))) \<longrightarrow>
          (\<exists>c' \<in> set cs. genes c' \<noteq> [] \<and> canonical (src c') = canonical (src c))"
    unfolding ids by auto
  with p show ?thesis by blast
qed

subsection \<open>Row order, labels and vocabulary\<close>

lemma sort_keys_Inr:
  "\<forall>c \<in> set cs. tbl (cluster_id c) \<noteq> None \<Longrightarrow>
     sort_keys tbl cs = Inr (map (\<lambda>c. the (tbl (cluster_id c))) cs)"
  by (induction cs) auto

lemma sort_keys_Inl:
  "c \<in> set cs \<Longrightarrow> tbl (cluster_id c) = None \<Longrightarrow>
     \<exists>k. sort_keys tbl cs = Inl (KeyError k) \<and> tbl k = None \<and> k \<in> cluster_id ` set cs"
proof (induction cs)
  case Nil
  then show ?case by simp
next
  case (Cons a cs)
  show ?case
  proof (cases "tbl (cluster_id a)")
    case None
    then show ?thesis by auto
  next
    case (Some g)
    with Cons.prems have "c \<in> set cs" by auto
    from Cons.IH [OF this Cons.prems(2)] Some show ?thesis by auto
  qed
qed

lemma insort_key_decorated:
  "insort_key fst (f x, x) (map (\<lambda>c. (f c, c)) ys) = map (\<lambda>c. (f c, c)) (insort_key f x ys)"
  by (induction ys) simp_all

lemma sort_key_decorated:
  "sort_key fst (map (\<lambda>c. (f c, c)) xs) = map (\<lambda>c. (f c, c)) (sort_key f xs)"
  by (induction xs) (simp_all add: insort_key_decorated)

lemma sort_decorated: "map snd (sort_key fst (zip (map f xs) xs)) = sort_key f xs"
proof -
  have "zip (map f xs) xs = map (\<lambda>c. (f c, c)) xs" by (induction xs) simp_all
  moreover have "map snd (map (\<lambda>c. (f c, c)) ys) = ys" for ys :: "'a list"
    by (induction ys) simp_all
  ultimately show ?thesis by (simp only: sort_key_decorated)
qed

lemma sort_by_gcf_Inr:
  "\<forall>c \<in> set cs. tbl (cluster_id c) \<noteq> None \<Longrightarrow>
     sort_by_gcf tbl cs = Inr (sort_key (\<lambda>c. the (tbl (cluster_id c))) cs)"
  by (simp add: sort_by_gcf_def sort_keys_Inr sort_decorated)

lemma sort_by_gcf_Inl:
  "c \<in> set cs \<Longrightarrow> tbl (cluster_id c) = None \<Longrightarrow>
     \<exists>k. sort_by_gcf tbl cs = Inl (KeyError k) \<and> tbl k = None \<and> k \<in> cluster_id ` set cs"
  using sort_keys_Inl [of c cs tbl] by (auto simp: sort_by_gcf_def)

lemma write_labels_present:
  "\<forall>c \<in> set cs. tbl (cluster_id c) \<noteq> None \<Longrightarrow>
     write_labels tbl cs f =
       (f @ concat (map (\<lambda>c. cluster_id c @ [TAB] @ the (tbl (cluster_id c)) @ [NL]) cs), None)"
  by (induction cs arbitrary: f) auto

lemma write_domains_concat: "write_domains ds f = f @ concat (map (\<lambda>d. d @ [NL]) ds)"
  by (induction ds arbitrary: f) simp_all

lemma finalize_present:
  assumes "\<forall>c \<in> set cs. tbl (cluster_id c) \<noteq> None"
  shows "finalize tbl dc reps cs =
    (let sorted_cs = sort_key (\<lambda>c. the (tbl (cluster_id c))) cs;
         vocab = all_possible sorted_cs;
         labels = concat (map (\<lambda>c. cluster_id c @ [TAB] @ the (tbl (cluster_id c)) @ [NL]) sorted_cs);
         doms = concat (map (\<lambda>d. d @ [NL]) vocab);
         rows = map (dc vocab) sorted_cs
     in ([MakeDirs, WriteFile ''labels.tsv'' labels, WriteFile ''domains.tsv'' doms,
          BuildComp rows, SaveNpz ''compositions.npz'' (coo_matrix rows)],
         Inr \<lparr>all_clusters = sorted_cs, vocabulary = vocab, labels_tsv = labels,
              domains_tsv = doms, comp_matrix = rows,
              missing = card (reps - set (map cluster_id sorted_cs))\<rparr>))"
proof -
  have "\<forall>c \<in> set (sort_key (\<lambda>c. the (tbl (cluster_id c))) cs). tbl (cluster_id c) \<noteq> None"
    using assms by simp
  then show ?thesis
    by (simp add: finalize_def sort_by_gcf_Inr [OF assms] write_labels_present
        write_domains_concat Let_def)
qed

lemma finalize_missing:
  assumes "c \<in> set cs" "tbl (cluster_id c) = None"
  shows "\<exists>k. finalize tbl dc reps cs = ([], Inl (KeyError k)) \<and> tbl k = None \<and> k \<in> cluster_id ` set cs"
  using sort_by_gcf_Inl [of c cs tbl] assms by (auto simp: finalize_def)

lemma example_merge:
  "merged_clusters (representative_ids example_gcfs) [[mibig_record]] [[gecco_record, gecco_bgc_record]]
     = Inr example_merged"
  by (simp add: example_defs ingest_defs)

lemma example_annotated:
  "annotate example_hits (flatten example_merged) =
     [add_domains (tagged_gene gecco_record ''NZ_1_cluster_1'') [PF2_strong],
      anonymous_gene gecco_record ''NZ_1_cluster_1'',
      add_domains (tagged_gene mibig_record ''tagA'') [PF1_weak, PF1_strong, TIGR_nan]]"
  by (simp add: annotate_def HMMS_def hmmer_run_def example_hits_def flatten_def example_merged_def
      add_domains_def with_protein_def with_domains_def tagged_gene_def anonymous_gene_def)

lemma example_filtered:
  "filter_genes (annotate example_hits (flatten example_merged)) =
     [add_domains (tagged_gene gecco_record ''NZ_1_cluster_1'') [PF2_strong],
      anonymous_gene gecco_record ''NZ_1_cluster_1'',
      add_domains (tagged_gene mibig_record ''tagA'') [PF1_strong]]"
  unfolding example_annotated
  by (simp add: filter_genes_def filter_gene_def significant_def example_significance
      add_domains_def with_protein_def with_domains_def tagged_gene_def anonymous_gene_def)

lemma example_regrouped_filtered:
  "regroup (sort_genes (filter_genes (annotate example_hits (flatten example_merged)))) =
     [\<lparr>cluster_id = ''BGC0000001'',
        genes = [add_domains (tagged_gene mibig_record ''tagA'') [PF1_strong]]\<rparr>,
      \<lparr>cluster_id = ''NZ_1_cluster_1'',
        genes = [add_domains (tagged_gene gecco_record ''NZ_1_cluster_1'') [PF2_strong],
                 anonymous_gene gecco_record ''NZ_1_cluster_1'']\<rparr>]"
  unfolding example_filtered
  by (simp add: regroup_def sort_genes_def source_name_def tagged_gene_def anonymous_gene_def
      add_domains_def with_protein_def with_domains_def
      mibig_record_def gecco_record_def canonical_def startswith_def rsplit1_def)


lemma example_table:
  "bgc_to_gcf_index example_gcfs ''BGC0000001'' = Some ''GCF2''"
  "bgc_to_gcf_index example_gcfs ''NZ_1_cluster_1'' = Some ''GCF1''"
  by (simp_all add: bgc_to_gcf_index_def example_gcfs_def)

lemma example_reps: "representative_ids example_gcfs = {''BGC0000001'', ''NZ_1_cluster_1''}"
  by (simp add: representative_ids_def example_gcfs_def)

lemma example_second_phase:
  "second_phase example_hits domain_counts example_gcfs example_merged =
     ([MakeDirs, WriteFile ''labels.tsv'' example_labels, WriteFile ''domains.tsv'' example_domains,
       BuildComp example_comp, SaveNpz ''compositions.npz'' (Rows example_comp)],
      Inr example_result)"
  unfolding second_phase_def example_regrouped_filtered
  by (simp add: finalize_def sort_by_gcf_def example_table all_possible_def
      add_domains_def with_protein_def with_domains_def tagged_gene_def anonymous_gene_def
      PF1_strong_def PF2_strong_def domain_counts_def example_reps Let_def coo_matrix_def
      example_result_def example_final_def example_labels_def example_domains_def example_comp_def)

lemma example_main:
  "main example_hits domain_counts example_gcfs [[mibig_record]] [[gecco_record, gecco_bgc_record]] =
     ([MakeDirs, WriteFile ''labels.tsv'' example_labels, WriteFile ''domains.tsv'' example_domains,
       BuildComp example_comp, SaveNpz ''compositions.npz'' (Rows example_comp)],
      Inr example_result)"
  by (simp add: main_def example_merge example_second_phase)

lemma finalize_Inr_present:
  assumes "finalize tbl dc reps cs = (tr, Inr out)"
  shows "\<forall>c \<in> set cs. tbl (cluster_id c) \<noteq> None"
proof (rule ccontr)
  assume "\<not> (\<forall>c \<in> set cs. tbl (cluster_id c) \<noteq> None)"
  then obtain c where "c \<in> set cs" "tbl (cluster_id c) = None" by blast
  with finalize_missing [where c = c and cs = cs and tbl = tbl and dc = dc and reps = reps] assms
  show False by auto
qed

lemma finalize_Inr:
  assumes "finalize tbl dc reps cs = (tr, Inr out)"
  shows "all_clusters out = sort_key (\<lambda>c. the (tbl (cluster_id c))) cs"
    and "vocabulary out = all_possible (all_clusters out)"
    and "labels_tsv out =
           concat (map (\<lambda>c. cluster_id c @ [TAB] @ the (tbl (cluster_id c)) @ [NL]) (all_clusters out))"
    and "domains_tsv out = concat (map (\<lambda>d. d @ [NL]) (vocabulary out))"
    and "comp_matrix out = map (dc (vocabulary out)) (all_clusters out)"
    and "tr = [MakeDirs, WriteFile ''labels.tsv'' (labels_tsv out),
               WriteFile ''domains.tsv'' (domains_tsv out), BuildComp (comp_matrix out),
               SaveNpz ''compositions.npz'' (coo_matrix (comp_matrix out))]"
  using assms unfolding finalize_present [OF finalize_Inr_present [OF assms]]
  by (auto simp: Let_def)

lemma finalize_Inl:
  assumes "finalize tbl dc reps cs = (tr, Inl e)"
  shows "tr = [] \<and> (\<exists>k. e = KeyError k \<and> tbl k = None \<and> k \<in> cluster_id ` set cs)"
proof (cases "\<forall>c \<in> set cs. tbl (cluster_id c) \<noteq> None")
  case True
  from finalize_present [OF True, of dc reps] assms show ?thesis by (simp add: Let_def)
next
  case False
  then obtain c where "c \<in> set cs" "tbl (cluster_id c) = None" by blast
  with finalize_missing [where c = c and cs = cs and tbl = tbl and dc = dc and reps = reps] assms
  show ?thesis by auto
qed











lemma set_all_possible:
  "set (all_possible cs) =
     {domain_name d | c g d. c \<in> set cs \<and> g \<in> set (genes c) \<and> d \<in> set (domains (protein g))}"
  by (auto simp: all_possible_def)

lemma sorted_all_possible: "sorted (all_possible cs) \<and> distinct (all_possible cs)"
  by (simp add: all_possible_def)

lemma regroup_genes: "concat (map genes (regroup gs)) = gs"
proof -
  have "map genes (regroup gs) = map snd (groupby source_name gs)"
    by (simp add: regroup_def split_def)
  then show ?thesis by (simp add: concat_groupby)
qed

lemma regrouped_genes: "(\<Union>c \<in> set (regroup (sort_genes gs)). set (genes c)) = set gs"
proof -
  have "(\<Union>c \<in> set (regroup (sort_genes gs)). set (genes c))
      = set (concat (map genes (regroup (sort_genes gs))))" by simp
  also have "\<dots> = set (sort_genes gs)" by (simp only: regroup_genes)
  finally show ?thesis by (simp add: sort_genes_def)
qed

lemma filtered_names:
  "{domain_name d | g d. g \<in> set (filter_genes G) \<and> d \<in> set (domains (protein g))}
   = {domain_name d | g d. g \<in> set G \<and> d \<in> set (domains (protein g))
                           \<and> float_lt (pvalue d) threshold}" (is "?A = ?B")
proof (rule set_eqI, rule iffI)
  fix n assume "n \<in> ?A"
  then obtain g d where g: "g \<in> set (filter_genes G)" and d: "d \<in> set (domains (protein g))"
    and n: "n = domain_name d" by blast
  from g obtain g0 where g0: "g0 \<in> set G" and e: "g = filter_gene g0"
    by (auto simp: filter_genes_def)
  from d have "d \<in> set (domains (protein g0)) \<and> float_lt (pvalue d) threshold"
    unfolding e filter_gene_domains by simp
  with g0 n show "n \<in> ?B" by blast
next
  fix n assume "n \<in> ?B"
  then obtain g d where g: "g \<in> set G" and d: "d \<in> set (domains (protein g))"
    and p: "float_lt (pvalue d) threshold" and n: "n = domain_name d" by blast
  from g have "filter_gene g \<in> set (filter_genes G)" by (simp add: filter_genes_def)
  moreover from d p have "d \<in> set (domains (protein (filter_gene g)))"
    unfolding filter_gene_domains by simp
  ultimately show "n \<in> ?A" using n by blast
qed

text \<open>
  C7: in a run that completes, the vocabulary is the set of the domain names of the
  final clusters, which is the set of the names of the domains that pass the
  significance filter in some gene; it has no duplicates and is sorted; and
  \<^verbatim>\<open>domains.tsv\<close> is these names in that order, each followed by a newline.
\<close>

theorem vocabulary_complete:
  assumes "second_phase hits dc gcfs clusters = (tr, Inr out)"
  shows "set (vocabulary out) =
        {domain_name d | c g d. c \<in> set (all_clusters out) \<and> g \<in> set (genes c)
                                 \<and> d \<in> set (domains (protein g))}
    \<and> set (vocabulary out) =
        {domain_name d | g d. g \<in> set (annotate hits (flatten clusters))
                               \<and> d \<in> set (domains (protein g)) \<and> float_lt (pvalue d) threshold}
    \<and> distinct (vocabulary out) \<and> sorted (vocabulary out)
    \<and> domains_tsv out = concat (map (\<lambda>d. d @ [NL]) (vocabulary out))
    \<and> tr ! 2 = WriteFile ''domains.tsv'' (domains_tsv out)"
proof (intro conjI)
  let ?G = "annotate hits (flatten clusters)"
  let ?R = "regroup (sort_genes (filter_genes ?G))"
  from assms have fin: "finalize (bgc_to_gcf_index gcfs) dc (representative_ids gcfs) ?R = (tr, Inr out)"
    by (simp add: second_phase_def)
  note f = finalize_Inr [OF fin]
  show 1: "set (vocabulary out) =
        {domain_name d | c g d. c \<in> set (all_clusters out) \<and> g \<in> set (genes c)
                                 \<and> d \<in> set (domains (protein g))}"
    unfolding f(2) by (rule set_all_possible)
  have gs: "(\<Union>c \<in> set (all_clusters out). set (genes c)) = set (filter_genes ?G)"
    unfolding f(1) using regrouped_genes [of "filter_genes ?G"] by simp
  have "{domain_name d | c g d. c \<in> set (all_clusters out) \<and> g \<in> set (genes c)
                                 \<and> d \<in> set (domains (protein g))}
      = {domain_name d | g d. g \<in> (\<Union>c \<in> set (all_clusters out). set (genes c))
                                 \<and> d \<in> set (domains (protein g))}" by blast
  also have "\<dots> = {domain_name d | g d. g \<in> set (filter_genes ?G) \<and> d \<in> set (domains (protein g))}"
    unfolding gs ..
  also have "\<dots> = {domain_name d | g d. g \<in> set ?G
                               \<and> d \<in> set (domains (protein g)) \<and> float_lt (pvalue d) threshold}"
    by (rule filtered_names)
  finally show "set (vocabulary out) =
        {domain_name d | g d. g \<in> set ?G
                               \<and> d \<in> set (domains (protein g)) \<and> float_lt (pvalue d) threshold}"
    unfolding 1 .
  show "distinct (vocabulary out)" "sorted (vocabulary out)"
    unfolding f(2) using sorted_all_possible by blast+
  show "domains_tsv out = concat (map (\<lambda>d. d @ [NL]) (vocabulary out))" by (rule f(4))
  show "tr ! 2 = WriteFile ''domains.tsv'' (domains_tsv out)" by (simp add: f(6))
qed

subsection \<open>Order of the output effects\<close>

lemma main_Inl_trace:
  assumes "main hits dc gcfs as_files ge_files = (tr, Inl e)"
  shows "tr = []"
proof (cases "merged_clusters (representative_ids gcfs) as_files ge_files")
  case (Inl e')
  with assms show ?thesis by (simp add: main_def)
next
  case (Inr clusters)
  with assms have "finalize (bgc_to_gcf_index gcfs) dc (representative_ids gcfs)
      (regroup (sort_genes (filter_genes (annotate hits (flatten clusters))))) = (tr, Inl e)"
    by (simp add: main_def second_phase_def)
  from finalize_Inl [OF this] show ?thesis by simp
qed

lemma main_Inr_trace:
  assumes "main hits dc gcfs as_files ge_files = (tr, Inr out)"
  shows "tr = [MakeDirs, WriteFile ''labels.tsv'' (labels_tsv out),
               WriteFile ''domains.tsv'' (domains_tsv out), BuildComp (comp_matrix out),
               SaveNpz ''compositions.npz'' (coo_matrix (comp_matrix out))]"
proof (cases "merged_clusters (representative_ids gcfs) as_files ge_files")
  case (Inl e')
  with assms show ?thesis by (simp add: main_def)
next
  case (Inr clusters)
  with assms have "finalize (bgc_to_gcf_index gcfs) dc (representative_ids gcfs)
      (regroup (sort_genes (filter_genes (annotate hits (flatten clusters))))) = (tr, Inr out)"
    by (simp add: main_def second_phase_def)
  from finalize_Inr(6) [OF this] show ?thesis .
qed

text \<open>
  C2, as stated, fails: the directory is made and \<^verbatim>\<open>labels.tsv\<close> and
  \<^verbatim>\<open>domains.tsv\<close> are written (lines 204 to 216) before the matrix is built
  (line 218).
\<close>

theorem text_files_written_before_matrix:
  "main example_hits domain_counts example_gcfs [[mibig_record]] [[gecco_record, gecco_bgc_record]] =
     ([MakeDirs, WriteFile ''labels.tsv'' example_labels, WriteFile ''domains.tsv'' example_domains,
       BuildComp example_comp, SaveNpz ''compositions.npz'' (Rows example_comp)],
      Inr example_result)
   \<and> written_before_comp ''labels.tsv''
        (fst (main example_hits domain_counts example_gcfs [[mibig_record]] [[gecco_record, gecco_bgc_record]]))
   \<and> written_before_comp ''domains.tsv''
        (fst (main example_hits domain_counts example_gcfs [[mibig_record]] [[gecco_record, gecco_bgc_record]]))"
  by (simp add: example_main)

text \<open>
  C2, amended: a run that ends with one of the script's own exceptions (the exit on a
  feature without identifier, the missing translation, the missing label at the sort)
  has made no directory and written no file; a run that completes makes the directory,
  writes \<^verbatim>\<open>labels.tsv\<close> and \<^verbatim>\<open>domains.tsv\<close>, builds the matrix and saves it, in this
  order; only \<^verbatim>\<open>compositions.npz\<close> is never written before the matrix is built.
\<close>

theorem output_order:
  "(\<forall>e. snd (main hits dc gcfs as_files ge_files) = Inl e \<longrightarrow>
        fst (main hits dc gcfs as_files ge_files) = [])
   \<and> (\<forall>out. snd (main hits dc gcfs as_files ge_files) = Inr out \<longrightarrow>
        fst (main hits dc gcfs as_files ge_files) =
          [MakeDirs, WriteFile ''labels.tsv'' (labels_tsv out),
           WriteFile ''domains.tsv'' (domains_tsv out), BuildComp (comp_matrix out),
           SaveNpz ''compositions.npz'' (coo_matrix (comp_matrix out))])
   \<and> \<not> written_before_comp ''compositions.npz'' (fst (main hits dc gcfs as_files ge_files))"
proof -
  obtain tr r where m: "main hits dc gcfs as_files ge_files = (tr, r)"
    by (cases "main hits dc gcfs as_files ge_files")
  show ?thesis
  proof (cases r)
    case (Inl e)
    with m main_Inl_trace [of hits dc gcfs as_files ge_files tr e] show ?thesis by simp
  next
    case (Inr out)
    with m main_Inr_trace [of hits dc gcfs as_files ge_files tr out] show ?thesis by simp
  qed
qed

lemma example_untranslated_main:
  "main example_hits domain_counts untranslated_gcfs [] [[untranslated_record]]
     = ([], Inl (KeyError ''translation''))"
  by (simp add: main_def example_defs ingest_defs untranslated_gcfs_def)

theorem output_order_witness:
  "snd (main example_hits domain_counts untranslated_gcfs [] [[untranslated_record]])
     = Inl (KeyError ''translation'')
   \<and> fst (main example_hits domain_counts untranslated_gcfs [] [[untranslated_record]]) = []
   \<and> snd (main example_hits domain_counts example_gcfs [[mibig_record]] [[gecco_record, gecco_bgc_record]])
     = Inr example_result
   \<and> fst (main example_hits domain_counts example_gcfs [[mibig_record]] [[gecco_record, gecco_bgc_record]])
     = [MakeDirs, WriteFile ''labels.tsv'' example_labels, WriteFile ''domains.tsv'' example_domains,
        BuildComp example_comp, SaveNpz ''compositions.npz'' (Rows example_comp)]"
proof -
  have a: "snd (main example_hits domain_counts untranslated_gcfs [] [[untranslated_record]])
     = Inl (KeyError ''translation'')"
    by (simp add: example_untranslated_main)
  have b: "snd (main example_hits domain_counts example_gcfs [[mibig_record]] [[gecco_record, gecco_bgc_record]])
     = Inr example_result"
    by (simp add: example_main)
  from a output_order [of example_hits domain_counts untranslated_gcfs "[]" "[[untranslated_record]]"]
  have 1: "fst (main example_hits domain_counts untranslated_gcfs [] [[untranslated_record]]) = []"
    by blast
  from b output_order [of example_hits domain_counts example_gcfs "[[mibig_record]]"
      "[[gecco_record, gecco_bgc_record]]"]
  have "fst (main example_hits domain_counts example_gcfs [[mibig_record]] [[gecco_record, gecco_bgc_record]])
     = [MakeDirs, WriteFile ''labels.tsv'' (labels_tsv example_result),
           WriteFile ''domains.tsv'' (domains_tsv example_result), BuildComp (comp_matrix example_result),
           SaveNpz ''compositions.npz'' (coo_matrix (comp_matrix example_result))]"
    by blast
  then have 2: "fst (main example_hits domain_counts example_gcfs [[mibig_record]] [[gecco_record, gecco_bgc_record]])
     = [MakeDirs, WriteFile ''labels.tsv'' example_labels, WriteFile ''domains.tsv'' example_domains,
        BuildComp example_comp, SaveNpz ''compositions.npz'' (Rows example_comp)]"
    by (simp add: example_result_def example_comp_def coo_matrix_def)
  from a b 1 2 show ?thesis by blast
qed

subsection \<open>The example run\<close>

lemma raw_name_table: "bgc_to_gcf_index raw_name_gcfs ''BGC0000002'' = None"
  by (simp add: bgc_to_gcf_index_def raw_name_gcfs_def)

lemma example_raw_name_main:
  "main example_hits domain_counts raw_name_gcfs [] [[gecco_bgc_record]]
     = ([], Inl (KeyError ''BGC0000002''))"
proof -
  have m: "merged_clusters (representative_ids raw_name_gcfs) [] [[gecco_bgc_record]]
      = Inr [\<lparr>cluster_id = ''BGC0000002.1'', genes = [tagged_gene gecco_bgc_record ''BGC0000002.1'']\<rparr>]"
    by (simp add: example_defs ingest_defs raw_name_gcfs_def)
  have r: "regroup (sort_genes (filter_genes (annotate example_hits
      (flatten [\<lparr>cluster_id = ''BGC0000002.1'', genes = [tagged_gene gecco_bgc_record ''BGC0000002.1'']\<rparr>]))))
      = [raw_name_cluster]"
    by (simp add: regroup_def sort_genes_def filter_genes_def filter_gene_def annotate_def HMMS_def
        hmmer_run_def example_hits_def flatten_def significant_def example_significance
        add_domains_def with_protein_def with_domains_def tagged_gene_def source_name_def
        gecco_bgc_record_def canonical_def startswith_def rsplit1_def raw_name_cluster_def)
  have "main example_hits domain_counts raw_name_gcfs [] [[gecco_bgc_record]]
      = second_phase example_hits domain_counts raw_name_gcfs
          [\<lparr>cluster_id = ''BGC0000002.1'', genes = [tagged_gene gecco_bgc_record ''BGC0000002.1'']\<rparr>]"
    by (simp add: main_def m)
  also have "\<dots> = finalize (bgc_to_gcf_index raw_name_gcfs) domain_counts
      (representative_ids raw_name_gcfs) [raw_name_cluster]"
    by (simp only: second_phase_def r)
  also have "\<dots> = ([], Inl (KeyError ''BGC0000002''))"
    by (simp add: finalize_def sort_by_gcf_def raw_name_cluster_def raw_name_table)
  finally show ?thesis .
qed








theorem vocabulary_complete_witness:
  "second_phase example_hits domain_counts example_gcfs example_merged =
     ([MakeDirs, WriteFile ''labels.tsv'' example_labels, WriteFile ''domains.tsv'' example_domains,
       BuildComp example_comp, SaveNpz ''compositions.npz'' (Rows example_comp)],
      Inr example_result)
   \<and> vocabulary example_result = [''PF00001'', ''PF00002'']
   \<and> distinct (vocabulary example_result) \<and> sorted (vocabulary example_result)
   \<and> domains_tsv example_result = ''PF00001'' @ [NL] @ ''PF00002'' @ [NL]
   \<and> TIGR_nan \<in> set (domains (protein (annotate example_hits (flatten example_merged) ! 2)))
   \<and> domain_name TIGR_nan \<notin> set (vocabulary example_result)"
proof -
  note v = vocabulary_complete [OF example_second_phase]
  from v have d: "distinct (vocabulary example_result)" and s: "sorted (vocabulary example_result)"
    by blast+
  have voc: "vocabulary example_result = [''PF00001'', ''PF00002'']"
    by (simp add: example_result_def)
  have t: "domains_tsv example_result = ''PF00001'' @ [NL] @ ''PF00002'' @ [NL]"
    by (simp add: example_result_def example_domains_def)
  have a: "TIGR_nan \<in> set (domains (protein (annotate example_hits (flatten example_merged) ! 2)))"
    unfolding example_annotated
    by (simp add: add_domains_def with_protein_def with_domains_def)
  have n: "domain_name TIGR_nan \<notin> set (vocabulary example_result)"
    unfolding voc by (simp add: TIGR_nan_def)
  from example_second_phase voc d s t a n show ?thesis by blast
qed

theorem regrouping_round_trip_witness:
  "inj_on canonical (example_source ` set example_merged)
   \<and> map example_source example_merged = [''NZ_1_cluster_1'', ''BGC0000001.1'']
   \<and> processed example_hits example_merged =
       [[add_domains (tagged_gene gecco_record ''NZ_1_cluster_1'') [PF2_strong],
         anonymous_gene gecco_record ''NZ_1_cluster_1''],
        [add_domains (tagged_gene mibig_record ''tagA'') [PF1_strong]]]
   \<and> distinct (map cluster_id
         (regroup (sort_genes (filter_genes (annotate example_hits (flatten example_merged))))))
   \<and> regroup (sort_genes (filter_genes (annotate example_hits (flatten example_merged)))) =
       [\<lparr>cluster_id = ''BGC0000001'',
          genes = [add_domains (tagged_gene mibig_record ''tagA'') [PF1_strong]]\<rparr>,
        \<lparr>cluster_id = ''NZ_1_cluster_1'',
          genes = [add_domains (tagged_gene gecco_record ''NZ_1_cluster_1'') [PF2_strong],
                   anonymous_gene gecco_record ''NZ_1_cluster_1'']\<rparr>]"
proof -
  have src: "map example_source example_merged = [''NZ_1_cluster_1'', ''BGC0000001.1'']"
    by (simp add: example_merged_def example_source_def source_name_def tagged_gene_def
        mibig_record_def gecco_record_def)
  have own: "\<forall>c \<in> set example_merged. \<forall>g \<in> set (genes c). source_name g = example_source c"
    by (simp add: example_merged_def example_source_def source_name_def tagged_gene_def
        anonymous_gene_def)
  have "example_source ` set example_merged = set (map example_source example_merged)" by simp
  then have img: "example_source ` set example_merged = {''NZ_1_cluster_1'', ''BGC0000001.1''}"
    unfolding src by simp
  have inj: "inj_on canonical (example_source ` set example_merged)"
    unfolding img by (simp add: canonical_def startswith_def rsplit1_def)
  have pr: "processed example_hits example_merged =
       [[add_domains (tagged_gene gecco_record ''NZ_1_cluster_1'') [PF2_strong],
         anonymous_gene gecco_record ''NZ_1_cluster_1''],
        [add_domains (tagged_gene mibig_record ''tagA'') [PF1_strong]]]"
    unfolding processed_def example_filtered by (simp add: example_merged_def)
  from regrouping_round_trip [OF own inj, of example_hits]
  have "distinct (map cluster_id
         (regroup (sort_genes (filter_genes (annotate example_hits (flatten example_merged))))))"
    by blast
  with inj src pr example_regrouped_filtered show ?thesis by blast
qed

end
